theory Spec2Isabelle
  imports Complex_Main
begin

section \<open>JavaScript strings and values\<close>

text \<open>
  A JavaScript string is modelled as a \<^typ>\<open>string\<close> whose characters are the code units
  below 256. \<open>toLowerCase\<close> maps the upper-case letters of that range to their lower-case
  forms; \<open>trim\<close> strips the white space and line terminators of that range from both ends.
\<close>

definition toLowerChar :: "char \<Rightarrow> char" where
  "toLowerChar c =
     (let n = (of_char c :: nat)
      in if (65 \<le> n \<and> n \<le> 90) \<or> (192 \<le> n \<and> n \<le> 222 \<and> n \<noteq> 215)
         then char_of (n + 32) else c)"

definition toLowerCase :: "string \<Rightarrow> string" where
  "toLowerCase s = map toLowerChar s"

definition isWhiteSpace :: "char \<Rightarrow> bool" where
  "isWhiteSpace c = ((of_char c :: nat) \<in> {9, 10, 11, 12, 13, 32, 160})"

definition trim :: "string \<Rightarrow> string" where
  "trim s = rev (dropWhile isWhiteSpace (rev (dropWhile isWhiteSpace s)))"

text \<open>The nullish coalescing \<open>x ?? d\<close> on an optional value.\<close>

definition orElse :: "'a option \<Rightarrow> 'a \<Rightarrow> 'a" where
  "orElse x d = (case x of None \<Rightarrow> d | Some v \<Rightarrow> v)"

text \<open>\<open>String(n)\<close> for an integral number: the decimal digits, with a sign when negative.\<close>

fun digitsOf :: "nat \<Rightarrow> string" where
  "digitsOf n = (if n < 10 then [char_of (48 + n)] else digitsOf (n div 10) @ [char_of (48 + n mod 10)])"

definition String_num :: "int \<Rightarrow> string" where
  "String_num i = (if i < 0 then CHR ''-'' # digitsOf (nat (- i)) else digitsOf (nat i))"

definition String_bool :: "bool \<Rightarrow> string" where
  "String_bool b = (if b then ''true'' else ''false'')"

text \<open>\<open>Array.prototype.join\<close> on strings.\<close>

fun join :: "string \<Rightarrow> string list \<Rightarrow> string" where
  "join sep [] = []"
| "join sep [x] = x"
| "join sep (x # y # ys) = x @ sep @ join sep (y # ys)"

section \<open>The record mapper (lib/notion)\<close>

text \<open>
  A property of a page as the data source returns it, tagged by its \<open>type\<close>. Optional parts
  (\<open>null\<close> or absent in the source) are options; the numbers of the source are modelled as
  integers.
\<close>

record richText =
  plain_text :: "string option"

datatype formula =
    FString "string option"
  | FNumber "int option"
  | FBoolean "bool option"
  | FDate "string option"
  | FOther

datatype notionProp =
    Formula "formula option"
  | Title "richText list"
  | RichText "richText list"
  | Select "string option"
  | Status "string option"
  | Number "int option"
  | DateProp "string option"
  | MultiSelect "string list"
  | OtherProp

type_synonym props = "string \<rightharpoonup> notionProp"

record page =
  properties :: "props option"

datatype overallStatus = Done | InProgress | Skipped | NotStarted

record ProgressRecord =
  date :: "string option"
  status :: overallStatus
  hours :: int
  pythonTopic :: "string option"
  llmTopic :: "string option"
  pythonPct :: int
  llmPct :: int
  overallPct :: int

definition dateCandidates :: "string list" where
  "dateCandidates = [''Day'', ''Date'']"

definition F_pythonStatus :: string where "F_pythonStatus = ''Python Status''"
definition F_llmStatus :: string where "F_llmStatus = ''LLM Status''"
definition F_pythonTopic :: string where "F_pythonTopic = ''Python Topic''"
definition F_llmTopic :: string where "F_llmTopic = ''LLM Topic''"

fun getFirstExistingProp :: "props \<Rightarrow> string list \<Rightarrow> notionProp option" where
  "getFirstExistingProp ps [] = None"
| "getFirstExistingProp ps (c # cs) =
     (case ps c of Some p \<Rightarrow> Some p | None \<Rightarrow> getFirstExistingProp ps cs)"

fun asPlainText :: "notionProp option \<Rightarrow> string option" where
  "asPlainText None = None"
| "asPlainText (Some (Formula None)) = None"
| "asPlainText (Some (Formula (Some (FString s)))) = s"
| "asPlainText (Some (Formula (Some (FNumber n)))) = map_option String_num n"
| "asPlainText (Some (Formula (Some (FBoolean b)))) = map_option String_bool b"
| "asPlainText (Some (Formula (Some (FDate d)))) = d"
| "asPlainText (Some (Formula (Some FOther))) = None"
| "asPlainText (Some (Title ts)) =
     (let parts = concat (map (\<lambda>t. orElse (plain_text t) []) ts)
      in if parts = [] then None else Some parts)"
| "asPlainText (Some (RichText ts)) =
     (let parts = concat (map (\<lambda>t. orElse (plain_text t) []) ts)
      in if parts = [] then None else Some parts)"
| "asPlainText (Some (Select n)) = n"
| "asPlainText (Some (Status n)) = n"
| "asPlainText (Some (Number n)) = map_option String_num n"
| "asPlainText (Some (DateProp d)) = d"
| "asPlainText (Some (MultiSelect ns)) = Some (join '', '' ns)"
| "asPlainText (Some OtherProp) = None"

definition progressFromStatus :: "string option \<Rightarrow> int" where
  "progressFromStatus st =
     (let s = toLowerCase (trim (orElse st []))
      in if s = ''completed'' then 100 else 0)"

definition deriveOverallStatus :: "string option \<Rightarrow> string option \<Rightarrow> overallStatus" where
  "deriveOverallStatus py llm =
     (let sPy = toLowerCase (orElse py []);
          sLlm = toLowerCase (orElse llm []);
          isPyDone = (sPy = ''completed'');
          isLlmDone = (sLlm = ''completed'');
          anyInProg = (sPy = ''in progress'' \<or> sLlm = ''in progress'');
          anySkipped = ((sPy = ''skipped'' \<or> sLlm = ''skipped'') \<and> \<not> isPyDone \<and> \<not> isLlmDone)
      in if isPyDone \<and> isLlmDone then Done
         else if anyInProg then InProgress
         else if anySkipped then Skipped
         else NotStarted)"

section \<open>Time values and the \<open>Date\<close> object\<close>

text \<open>
  A time value is a number of milliseconds since 1970-01-01T00:00:00Z; a \<open>Date\<close> holds a
  time value or \<open>NaN\<close> (an invalid date), modelled as \<open>None\<close>. The day and year arithmetic
  is the one the language standard prescribes for \<open>Date\<close>.
\<close>

type_synonym timeval = "int option"

definition msPerDay :: int where
  "msPerDay = 86400000"

definition Day :: "int \<Rightarrow> int" where
  "Day t = t div msPerDay"

definition TimeWithinDay :: "int \<Rightarrow> int" where
  "TimeWithinDay t = t mod msPerDay"

definition DaysInYear :: "int \<Rightarrow> int" where
  "DaysInYear y =
     (if y mod 4 \<noteq> 0 then 365
      else if y mod 100 \<noteq> 0 then 366
      else if y mod 400 \<noteq> 0 then 365
      else 366)"

definition DayFromYear :: "int \<Rightarrow> int" where
  "DayFromYear y =
     365 * (y - 1970) + (y - 1969) div 4 - (y - 1901) div 100 + (y - 1601) div 400"

lemma div_step_gen:
  fixes a k :: int
  assumes k: "0 < k"
  shows "(a + 1) div k = a div k + (if (a + 1) mod k = 0 then 1 else 0)"
proof -
  define q r where "q = a div k" and "r = a mod k"
  have a: "a = k * q + r"
    by (simp add: q_def r_def)
  have r: "0 \<le> r" "r < k"
    using k by (simp_all add: r_def)
  show ?thesis
  proof (cases "r + 1 = k")
    case True
    then have e: "a + 1 = (q + 1) * k"
      using a by (simp add: algebra_simps)
    have "(a + 1) div k = q + 1" "(a + 1) mod k = 0"
      unfolding e using k by simp_all
    then show ?thesis
      by (simp add: q_def)
  next
    case False
    then have lt: "r + 1 < k"
      using r by simp
    have e: "a + 1 = (r + 1) + q * k"
      using a by (simp add: algebra_simps)
    have "(a + 1) div k = q" "(a + 1) mod k = r + 1"
      unfolding e using k r lt by simp_all
    then show ?thesis
      using r by (simp add: q_def)
  qed
qed

lemma mod_shift: "(y - c * k) mod k = y mod k" for y c k :: int
  by (metis mod_mult_self1 diff_conv_add_uminus mult_minus_left)

lemma div4_step: "(y - 1968) div 4 = (y - 1969) div 4 + (if y mod 4 = 0 then 1 else 0)"
  for y :: int
  using div_step_gen [of 4 "y - 1969"] mod_shift [of y 492 4] by simp

lemma div100_step: "(y - 1900) div 100 = (y - 1901) div 100 + (if y mod 100 = 0 then 1 else 0)"
  for y :: int
  using div_step_gen [of 100 "y - 1901"] mod_shift [of y 19 100] by simp

lemma div400_step: "(y - 1600) div 400 = (y - 1601) div 400 + (if y mod 400 = 0 then 1 else 0)"
  for y :: int
  using div_step_gen [of 400 "y - 1601"] mod_shift [of y 4 400] by simp

lemma mod100_mod4: "y mod 100 = 0 \<Longrightarrow> y mod 4 = 0" for y :: int
  by auto

lemma mod400_mod100: "y mod 400 = 0 \<Longrightarrow> y mod 100 = 0" for y :: int
  by auto

lemma DayFromYear_step: "DayFromYear (y + 1) = DayFromYear y + DaysInYear y"
  using mod100_mod4 [of y] mod400_mod100 [of y]
  by (auto simp add: DayFromYear_def DaysInYear_def div4_step div100_step div400_step)

lemma DaysInYear_bounds: "365 \<le> DaysInYear y \<and> DaysInYear y \<le> 366"
  by (simp add: DaysInYear_def)

lemma DayFromYear_pred_less: "DayFromYear (y - 1) < DayFromYear y"
proof -
  have "DayFromYear ((y - 1) + 1) = DayFromYear (y - 1) + DaysInYear (y - 1)"
    by (rule DayFromYear_step)
  then have "DayFromYear y = DayFromYear (y - 1) + DaysInYear (y - 1)"
    by simp
  then show ?thesis
    using DaysInYear_bounds [of "y - 1"] by linarith
qed

text \<open>
  \<open>YearFromTime t\<close> is the largest year \<open>y\<close> with \<open>DayFromYear y \<le> Day t\<close>; it is found by
  stepping down from a year that is not too small.
\<close>

function yearDown :: "int \<Rightarrow> int \<Rightarrow> int" where
  "yearDown y d = (if DayFromYear y \<le> d then y else yearDown (y - 1) d)"
  by pat_completeness auto
termination
proof (relation "measure (\<lambda>(y, d). nat (DayFromYear y - d))")
  show "wf (measure (\<lambda>(y, d). nat (DayFromYear y - d)))" by simp
next
  fix y d :: int
  assume "\<not> DayFromYear y \<le> d"
  then show "((y - 1, d), (y, d)) \<in> measure (\<lambda>(y, d). nat (DayFromYear y - d))"
    using DayFromYear_pred_less [of y] by simp
qed

declare yearDown.simps [simp del]
definition YearFromDay :: "int \<Rightarrow> int" where
  "YearFromDay d = yearDown (if 0 \<le> d then 1970 + d div 365 else 1969) d"

definition YearFromTime :: "int \<Rightarrow> int" where
  "YearFromTime t = YearFromDay (Day t)"

definition InLeapYear :: "int \<Rightarrow> int" where
  "InLeapYear t = (if DaysInYear (YearFromTime t) = 366 then 1 else 0)"

definition DayWithinYear :: "int \<Rightarrow> int" where
  "DayWithinYear t = Day t - DayFromYear (YearFromTime t)"

definition MonthFromTime :: "int \<Rightarrow> int" where
  "MonthFromTime t =
     (let d = DayWithinYear t; l = InLeapYear t
      in if d < 31 then 0
         else if d < 59 + l then 1
         else if d < 90 + l then 2
         else if d < 120 + l then 3
         else if d < 151 + l then 4
         else if d < 181 + l then 5
         else if d < 212 + l then 6
         else if d < 243 + l then 7
         else if d < 273 + l then 8
         else if d < 304 + l then 9
         else if d < 334 + l then 10
         else 11)"

definition DateFromTime :: "int \<Rightarrow> int" where
  "DateFromTime t =
     (let d = DayWithinYear t; l = InLeapYear t; m = MonthFromTime t
      in if m = 0 then d + 1
         else if m = 1 then d - 30
         else if m = 2 then d - 58 - l
         else if m = 3 then d - 89 - l
         else if m = 4 then d - 119 - l
         else if m = 5 then d - 150 - l
         else if m = 6 then d - 180 - l
         else if m = 7 then d - 211 - l
         else if m = 8 then d - 242 - l
         else if m = 9 then d - 272 - l
         else if m = 10 then d - 303 - l
         else d - 333 - l)"

text \<open>The number of days of year \<open>y\<close> that precede its month \<open>mn\<close> (0 is January).\<close>

definition monthStart :: "int \<Rightarrow> int \<Rightarrow> int" where
  "monthStart y mn =
     (let l = (if DaysInYear y = 366 then 1 else 0)
      in if mn = 0 then 0
         else if mn = 1 then 31
         else if mn = 2 then 59 + l
         else if mn = 3 then 90 + l
         else if mn = 4 then 120 + l
         else if mn = 5 then 151 + l
         else if mn = 6 then 181 + l
         else if mn = 7 then 212 + l
         else if mn = 8 then 243 + l
         else if mn = 9 then 273 + l
         else if mn = 10 then 304 + l
         else 334 + l)"

definition MakeDay :: "int \<Rightarrow> int \<Rightarrow> int \<Rightarrow> int" where
  "MakeDay year month dt =
     (let ym = year + month div 12; mn = month mod 12
      in DayFromYear ym + monthStart ym mn + dt - 1)"

definition MakeTime :: "int \<Rightarrow> int \<Rightarrow> int \<Rightarrow> int \<Rightarrow> int" where
  "MakeTime h m s ms = h * 3600000 + m * 60000 + s * 1000 + ms"

definition MakeDate :: "int \<Rightarrow> int \<Rightarrow> int" where
  "MakeDate day time = day * msPerDay + time"

definition TimeClip :: "int \<Rightarrow> timeval" where
  "TimeClip t = (if \<bar>t\<bar> > 8640000000000000 then None else Some t)"

text \<open>\<open>Date.UTC(year, month, date)\<close>: a year from 0 to 99 stands for 1900 + year.\<close>

definition Date_UTC :: "int \<Rightarrow> int \<Rightarrow> int \<Rightarrow> timeval" where
  "Date_UTC year month dt =
     (let yr = (if 0 \<le> year \<and> year \<le> 99 then 1900 + year else year)
      in TimeClip (MakeDate (MakeDay yr month dt) (MakeTime 0 0 0 0)))"


section \<open>Parsing and printing dates\<close>

definition isDigit :: "char \<Rightarrow> bool" where
  "isDigit c = (48 \<le> (of_char c :: nat) \<and> (of_char c :: nat) \<le> 57)"

definition isAlpha :: "char \<Rightarrow> bool" where
  "isAlpha c =
     (let n = (of_char c :: nat) in (65 \<le> n \<and> n \<le> 90) \<or> (97 \<le> n \<and> n \<le> 122))"

definition digitVal :: "char \<Rightarrow> int" where
  "digitVal c = int (of_char c) - 48"

definition numOf :: "string \<Rightarrow> int" where
  "numOf s = foldl (\<lambda>a c. 10 * a + digitVal c) 0 s"

text \<open>The substring of \<open>s\<close> from index \<open>i\<close>, of length \<open>n\<close>.\<close>

definition sub :: "string \<Rightarrow> nat \<Rightarrow> nat \<Rightarrow> string" where
  "sub s i n = take n (drop i s)"

text \<open>The regular expression \<open>^\d{4}-\d{2}-\d{2}$\<close>.\<close>

definition isoDatePattern :: "string \<Rightarrow> bool" where
  "isoDatePattern s =
     (length s = 10 \<and> list_all isDigit (sub s 0 4) \<and> sub s 4 1 = ''-'' \<and>
      list_all isDigit (sub s 5 2) \<and> sub s 7 1 = ''-'' \<and> list_all isDigit (sub s 8 2))"

text \<open>The regular expression \<open>^T\d{2}:\d{2}:\d{2}(\.\d{3})?Z$\<close> of a UTC time of day.\<close>

definition isoTimePattern :: "string \<Rightarrow> bool" where
  "isoTimePattern s =
     ((length s = 10 \<or> length s = 14) \<and> sub s 0 1 = ''T'' \<and>
      list_all isDigit (sub s 1 2) \<and> sub s 3 1 = '':'' \<and>
      list_all isDigit (sub s 4 2) \<and> sub s 6 1 = '':'' \<and>
      list_all isDigit (sub s 7 2) \<and>
      (if length s = 10 then sub s 9 1 = ''Z''
       else sub s 9 1 = ''.'' \<and> list_all isDigit (sub s 10 3) \<and> sub s 13 1 = ''Z''))"

definition DaysInMonth :: "int \<Rightarrow> int \<Rightarrow> int" where
  "DaysInMonth y m =
     (if m = 2 then (if DaysInYear y = 366 then 29 else 28)
      else if m = 4 \<or> m = 6 \<or> m = 9 \<or> m = 11 then 30
      else 31)"

definition validDate :: "int \<Rightarrow> int \<Rightarrow> int \<Rightarrow> bool" where
  "validDate y m d = (1 \<le> m \<and> m \<le> 12 \<and> 1 \<le> d \<and> d \<le> DaysInMonth y m)"

text \<open>UTC midnight of the calendar date \<open>y\<close>-\<open>m\<close>-\<open>d\<close> (\<open>m\<close> from 1 to 12), as a time value.\<close>

definition utcMidnight :: "int \<Rightarrow> int \<Rightarrow> int \<Rightarrow> int" where
  "utcMidnight y m d = MakeDate (MakeDay y (m - 1) d) 0"

text \<open>
  The date-time string format of the language standard, for the forms \<open>YYYY-MM-DD\<close>,
  \<open>YYYY-MM-DDTHH:mm:ssZ\<close> and \<open>YYYY-MM-DDTHH:mm:ss.sssZ\<close> with every element in range. The
  date-only form is UTC. \<open>None\<close> means that the text is not of these forms; what a text
  outside them parses to is left to the implementation (\<open>implParse\<close> below).
\<close>

definition isoParse :: "string \<Rightarrow> int option" where
  "isoParse s =
     (if isoDatePattern (take 10 s) \<and> (length s = 10 \<or> isoTimePattern (drop 10 s)) then
        (let y = numOf (sub s 0 4); m = numOf (sub s 5 2); d = numOf (sub s 8 2);
             hh = (if length s = 10 then 0 else numOf (sub s 11 2));
             mm = (if length s = 10 then 0 else numOf (sub s 14 2));
             ss = (if length s = 10 then 0 else numOf (sub s 17 2));
             ms = (if length s = 24 then numOf (sub s 20 3) else 0)
         in if validDate y m d \<and> hh \<le> 23 \<and> mm \<le> 59 \<and> ss \<le> 59
            then Some (MakeDate (MakeDay y (m - 1) d) (MakeTime hh mm ss ms))
            else None)
      else None)"

text \<open>
  What the code reads from the JavaScript runtime: the clock (\<open>new Date()\<close>), the
  implementation-specific part of \<open>Date.parse\<close> (\<open>None\<close> is \<open>NaN\<close>), and the local-time
  computations of the date-range filter, which depend on the viewer's time zone:
  \<open>d3.timeWeek.floor\<close>, \<open>d3.timeWeek.offset\<close> and \<open>new Date(now.getFullYear(), 0, 1)\<close>.
\<close>

record runtime =
  now :: int
  implParse :: "string \<Rightarrow> int option"
  timeWeekFloor :: "int \<Rightarrow> int"
  timeWeekOffset :: "int \<Rightarrow> int \<Rightarrow> int"
  localYearStart :: "int \<Rightarrow> int"

text \<open>\<open>Date.parse(s)\<close> and \<open>new Date(s)\<close>: the standard format first, then the implementation.\<close>

definition Date_parse :: "runtime \<Rightarrow> string \<Rightarrow> timeval" where
  "Date_parse env s = (case isoParse s of Some t \<Rightarrow> Some t | None \<Rightarrow> implParse env s)"

definition padZero :: "nat \<Rightarrow> string \<Rightarrow> string" where
  "padZero n s = replicate (n - length s) (CHR ''0'') @ s"

definition pad :: "nat \<Rightarrow> int \<Rightarrow> string" where
  "pad n i = padZero n (digitsOf (nat i))"

text \<open>\<open>toISOString\<close> of a valid date; years outside 0..9999 are printed with a sign and six digits.\<close>

definition toISOString :: "int \<Rightarrow> string" where
  "toISOString t =
     (let y = YearFromTime t; w = TimeWithinDay t;
          ys = (if 0 \<le> y \<and> y \<le> 9999 then pad 4 y
                else if y < 0 then CHR ''-'' # pad 6 (- y) else CHR ''+'' # pad 6 y)
      in ys @ ''-'' @ pad 2 (MonthFromTime t + 1) @ ''-'' @ pad 2 (DateFromTime t) @ ''T'' @
         pad 2 (w div 3600000) @ '':'' @ pad 2 (w div 60000 mod 60) @ '':'' @
         pad 2 (w div 1000 mod 60) @ ''.'' @ pad 3 (w mod 1000) @ ''Z'')"

definition toISODate :: "runtime \<Rightarrow> string option \<Rightarrow> string option" where
  "toISODate env so =
     (case so of None \<Rightarrow> None
      | Some s \<Rightarrow>
          if s = [] then None
          else (case Date_parse env s of None \<Rightarrow> None | Some t \<Rightarrow> Some (toISOString t)))"

definition mapPage :: "runtime \<Rightarrow> page \<Rightarrow> ProgressRecord" where
  "mapPage env pg =
     (let ps = orElse (properties pg) Map.empty;
          dayProp = getFirstExistingProp ps dateCandidates;
          dateISO = toISODate env (asPlainText dayProp);
          pythonStatus = asPlainText (ps F_pythonStatus);
          llmStatus = asPlainText (ps F_llmStatus);
          pyTopic = asPlainText (ps F_pythonTopic);
          lTopic = asPlainText (ps F_llmTopic);
          pyPct = progressFromStatus pythonStatus;
          lPct = progressFromStatus llmStatus;
          oPct = (if pyPct = 100 \<and> lPct = 100 then 100 else 0);
          st = deriveOverallStatus pythonStatus llmStatus
      in \<lparr> date = dateISO, status = st, hours = 0, pythonTopic = pyTopic, llmTopic = lTopic,
           pythonPct = pyPct, llmPct = lPct, overallPct = oPct \<rparr>)"

section \<open>The date normalizer of the dashboard (\<open>parseUTC\<close>)\<close>

text \<open>
  The regular expression \<open>^(?:[A-Za-z]{3},\s*)?([A-Za-z]{3})\s+(\d{1,2})$\<close>: \<open>matchCore\<close> is
  the part after the optional weekday prefix and returns the two groups.
\<close>

definition matchCore :: "string \<Rightarrow> (string \<times> string) option" where
  "matchCore r =
     (if 3 \<le> length r \<and> list_all isAlpha (take 3 r) then
        (let rest = drop 3 r; d = dropWhile isWhiteSpace rest
         in if rest \<noteq> [] \<and> isWhiteSpace (hd rest) \<and> (length d = 1 \<or> length d = 2) \<and>
               list_all isDigit d
            then Some (take 3 r, d) else None)
      else None)"

definition matchMonthDay :: "string \<Rightarrow> (string \<times> string) option" where
  "matchMonthDay s =
     (let withPrefix =
            (if 4 \<le> length s \<and> list_all isAlpha (take 3 s) \<and> sub s 3 1 = '',''
             then matchCore (dropWhile isWhiteSpace (drop 4 s)) else None)
      in case withPrefix of Some g \<Rightarrow> Some g | None \<Rightarrow> matchCore s)"

text \<open>
  \<open>parseUTC\<close> returns \<open>null\<close> (\<open>None\<close>) or a \<open>Date\<close>, which may be invalid (\<open>Some None\<close>).
  \<open>parseUTC_rest\<close> is the part after the native parse was rejected.
\<close>

definition parseUTC_rest :: "runtime \<Rightarrow> string \<Rightarrow> timeval" where
  "parseUTC_rest env s =
     (case matchMonthDay s of
        Some (mon, dy) \<Rightarrow>
          (let y = YearFromTime (now env)
           in Date_parse env (mon @ '' '' @ dy @ '', '' @ String_num y @ '' UTC''))
      | None \<Rightarrow>
          Date_UTC (YearFromTime (now env)) (MonthFromTime (now env)) (DateFromTime (now env)))"

definition parseUTC :: "runtime \<Rightarrow> string option \<Rightarrow> timeval option" where
  "parseUTC env so =
     (case so of None \<Rightarrow> None
      | Some s \<Rightarrow>
          if s = [] then None
          else if isoDatePattern s then Some (Date_parse env (s @ ''T00:00:00Z''))
          else (case Date_parse env s of
                  Some t \<Rightarrow> if YearFromTime t > 2015 then Some (Some t)
                            else Some (parseUTC_rest env s)
                | None \<Rightarrow> Some (parseUTC_rest env s)))"

section \<open>The dashboard: records, day and week keys\<close>

text \<open>
  A JavaScript number is an integer (the fractional numbers play no role here), \<open>NaN\<close> or
  an infinity. A field of an item may be absent (\<open>undefined\<close>), \<open>null\<close> or hold a value.
\<close>

datatype jsnum = Num int | NaN | PosInf | NegInf

datatype 'a nullable = Undefined | Null | Val 'a

record Item =
  date :: "string option"
  status :: "string option"
  hours :: "jsnum nullable"
  pythonTopic :: "string nullable"
  llmTopic :: "string nullable"
  pythonPct :: "jsnum nullable"
  llmPct :: "jsnum nullable"
  overallPct :: "jsnum nullable"

text \<open>\<open>x ?? 0\<close> and \<open>x >= 100\<close> on numbers.\<close>

definition orZero :: "jsnum nullable \<Rightarrow> jsnum" where
  "orZero x = (case x of Val n \<Rightarrow> n | _ \<Rightarrow> Num 0)"

definition ge100 :: "jsnum \<Rightarrow> bool" where
  "ge100 n = (case n of Num i \<Rightarrow> i \<ge> 100 | PosInf \<Rightarrow> True | _ \<Rightarrow> False)"

definition isDoneDay :: "Item \<Rightarrow> bool" where
  "isDoneDay d = (ge100 (orZero (overallPct d)) \<or> ge100 (orZero (pythonPct d)) \<or>
                  ge100 (orZero (llmPct d)))"

text \<open>The truthiness of \<open>r.date\<close>: present and not the empty string.\<close>

definition hasDate :: "Item \<Rightarrow> bool" where
  "hasDate r = (case date r of None \<Rightarrow> False | Some s \<Rightarrow> s \<noteq> [])"

text \<open>
  \<open>d3.utcDay.floor\<close>, \<open>d3.utcDay.offset\<close> and \<open>d3.utcMonday.floor\<close> on a \<open>Date\<close>; an invalid
  date stays invalid. The week day of a day number is \<open>(day + 4) mod 7\<close>, 0 being Sunday.
  The day floor of a time value in the range of \<open>Date\<close> is in that range, as the bound is
  a whole number of days; the other two results are clipped to the range.
\<close>

definition utcDayFloor :: "timeval \<Rightarrow> timeval" where
  "utcDayFloor d = (case d of None \<Rightarrow> None | Some t \<Rightarrow> Some (Day t * msPerDay))"

definition utcDayOffset :: "timeval \<Rightarrow> int \<Rightarrow> timeval" where
  "utcDayOffset d k = (case d of None \<Rightarrow> None | Some t \<Rightarrow> TimeClip (t + k * msPerDay))"

definition WeekDay :: "int \<Rightarrow> int" where
  "WeekDay t = (Day t + 4) mod 7"

definition utcMondayFloor :: "timeval \<Rightarrow> timeval" where
  "utcMondayFloor d =
     (case d of None \<Rightarrow> None
      | Some t \<Rightarrow> TimeClip ((Day t - (WeekDay t + 7 - 1) mod 7) * msPerDay))"

definition utcDayKey :: "timeval \<Rightarrow> timeval" where
  "utcDayKey d = utcDayFloor d"

definition utcWeekKey :: "timeval \<Rightarrow> timeval" where
  "utcWeekKey d = utcMondayFloor d"

text \<open>
  \<open>utcDayKey(parseUTC(r.date!)!)\<close> and \<open>utcWeekKey(parseUTC(d.date!)!)\<close>. Were \<open>parseUTC\<close> to
  return \<open>null\<close>, d3 would coerce it to the time value 0.
\<close>

definition parsedDate :: "runtime \<Rightarrow> Item \<Rightarrow> timeval" where
  "parsedDate env r = (case parseUTC env (date r) of None \<Rightarrow> Some 0 | Some d \<Rightarrow> d)"

definition dayKeyOf :: "runtime \<Rightarrow> Item \<Rightarrow> timeval" where
  "dayKeyOf env r = utcDayKey (parsedDate env r)"

definition weekKeyOf :: "runtime \<Rightarrow> Item \<Rightarrow> timeval" where
  "weekKeyOf env r = utcWeekKey (parsedDate env r)"

text \<open>
  \<open>d3.group\<close>: the values grouped by key, the groups in the order in which their keys first
  occur, the values of a group in their order. \<open>NaN\<close> is one key. \<open>d3.rollups\<close> applies a
  reducer to every group.
\<close>

fun insertGroup :: "'k \<Rightarrow> 'a \<Rightarrow> ('k \<times> 'a list) list \<Rightarrow> ('k \<times> 'a list) list" where
  "insertGroup k x [] = [(k, [x])]"
| "insertGroup k x ((k', vs) # gs) =
     (if k = k' then (k', vs @ [x]) # gs else (k', vs) # insertGroup k x gs)"

definition group :: "('a \<Rightarrow> 'k) \<Rightarrow> 'a list \<Rightarrow> ('k \<times> 'a list) list" where
  "group key xs = foldl (\<lambda>gs x. insertGroup (key x) x gs) [] xs"

definition rollups :: "('a list \<Rightarrow> 'b) \<Rightarrow> ('a \<Rightarrow> 'k) \<Rightarrow> 'a list \<Rightarrow> ('k \<times> 'b) list" where
  "rollups reduce key xs = map (\<lambda>(k, vs). (k, reduce vs)) (group key xs)"

text \<open>
  \<open>Array.prototype.sort\<close> with a comparator, as a stable insertion sort; a comparator result
  of \<open>NaN\<close> counts as 0. (With \<open>NaN\<close> among the keys the comparator \<open>a - b\<close> is not
  consistent and the language leaves the order to the implementation.)
\<close>

fun insertBy :: "('a \<Rightarrow> 'a \<Rightarrow> int) \<Rightarrow> 'a \<Rightarrow> 'a list \<Rightarrow> 'a list" where
  "insertBy cmp x [] = [x]"
| "insertBy cmp x (y # ys) = (if cmp x y \<le> 0 then x # y # ys else y # insertBy cmp x ys)"

definition sortBy :: "('a \<Rightarrow> 'a \<Rightarrow> int) \<Rightarrow> 'a list \<Rightarrow> 'a list" where
  "sortBy cmp xs = foldr (insertBy cmp) xs []"

definition numCompare :: "timeval \<Rightarrow> timeval \<Rightarrow> int" where
  "numCompare a b = (case (a, b) of (Some x, Some y) \<Rightarrow> x - y | _ \<Rightarrow> 0)"

section \<open>The dashboard: filter and KPIs\<close>

text \<open>
  The lower bound of the date-range filter; \<open>None\<close> is \<open>undefined\<close> (no bound). The range
  key comes from the URL and may be any text.
\<close>

definition rangeStart :: "runtime \<Rightarrow> string \<Rightarrow> int option" where
  "rangeStart env dateRange =
     (if dateRange = ''all'' then None
      else if dateRange = ''4w'' then Some (timeWeekOffset env (timeWeekFloor env (now env)) (- 4))
      else if dateRange = ''12w'' then Some (timeWeekOffset env (timeWeekFloor env (now env)) (- 12))
      else if dateRange = ''ytd'' then Some (localYearStart env (now env))
      else None)"

text \<open>\<open>parseUTC(d.date)! >= start\<close>: an invalid date compares false; \<open>null\<close> would count as 0.\<close>

definition notBefore :: "timeval option \<Rightarrow> int \<Rightarrow> bool" where
  "notBefore d start =
     (case d of None \<Rightarrow> 0 \<ge> start | Some None \<Rightarrow> False | Some (Some t) \<Rightarrow> t \<ge> start)"

definition filtered :: "runtime \<Rightarrow> string \<Rightarrow> Item list \<Rightarrow> Item list" where
  "filtered env dateRange data =
     (if data = [] then data
      else (case rangeStart env dateRange of
              None \<Rightarrow> data
            | Some start \<Rightarrow>
                filter (\<lambda>d. if hasDate d then notBefore (parseUTC env (date d)) start else False)
                  data))"

text \<open>\<open>Math.round\<close>, on an exact rational where JavaScript rounds a binary floating-point number.\<close>

definition Math_round :: "rat \<Rightarrow> int" where
  "Math_round x = \<lfloor>x + 1 / 2\<rfloor>"

text \<open>The keys not after a bound; their number is the termination measure of the loop.\<close>

definition leKey :: "int \<Rightarrow> timeval \<Rightarrow> bool" where
  "leKey b k = (case k of None \<Rightarrow> False | Some t \<Rightarrow> t \<le> b)"

lemma Day_floor_bounds: "Day c * msPerDay \<le> c \<and> c - msPerDay < Day c * msPerDay"
proof -
  have "c = Day c * msPerDay + c mod msPerDay"
    by (simp add: Day_def)
  moreover have "0 \<le> c mod msPerDay" "c mod msPerDay < msPerDay"
    by (simp_all add: msPerDay_def)
  ultimately show ?thesis by linarith
qed

lemma countBack_measure:
  assumes mem: "utcDayKey (Some c) \<in> set doneSet"
    and off: "utcDayOffset (Some c) (- 1) = Some c'"
  shows "length (filter (leKey c') doneSet) < length (filter (leKey c) doneSet)"
proof -
  have c': "c' = c - msPerDay"
    using off by (simp add: utcDayOffset_def TimeClip_def split: if_splits)
  have kv: "utcDayKey (Some c) = Some (Day c * msPerDay)"
    by (simp add: utcDayKey_def utcDayFloor_def)
  define k where "k = Day c * msPerDay"
  have kin: "Some k \<in> set (filter (leKey c) doneSet)"
    using mem kv Day_floor_bounds [of c] by (simp add: leKey_def k_def)
  have knot: "\<not> leKey c' (Some k)"
    using c' Day_floor_bounds [of c] by (simp add: leKey_def k_def)
  have "filter (leKey c') (filter (leKey c) doneSet) = filter (leKey c') doneSet"
    unfolding filter_filter
    by (rule filter_cong) (auto simp add: leKey_def c' msPerDay_def split: option.splits)
  moreover have "length (filter (leKey c') (filter (leKey c) doneSet))
                 < length (filter (leKey c) doneSet)"
    using kin knot by (rule length_filter_less [where P = "leKey c'"])
  ultimately show ?thesis by simp
qed

text \<open>
  The loop of the streak: while the day key of the cursor is in the set, count and step back
  one UTC day. The set is given by the list of its elements. An invalid cursor stays invalid
  under \<open>offset\<close>, and \<open>Set.has(NaN)\<close> holds when \<open>NaN\<close> is an element, so the loop does not
  end then: that is the result \<open>None\<close>.
\<close>

function countBack :: "timeval list \<Rightarrow> timeval \<Rightarrow> nat \<Rightarrow> nat option" where
  "countBack doneSet None streak = (if None \<in> set doneSet then None else Some streak)"
| "countBack doneSet (Some c) streak =
     (if utcDayKey (Some c) \<in> set doneSet
      then countBack doneSet (utcDayOffset (Some c) (- 1)) (streak + 1)
      else Some streak)"
  by pat_completeness auto
termination
proof (relation "measure (\<lambda>(ks, cur, n).
    case cur of None \<Rightarrow> 0 | Some c \<Rightarrow> Suc (length (filter (leKey c) ks)))")
  show "wf (measure (\<lambda>(ks, cur, n).
    case cur of None \<Rightarrow> 0 | Some c \<Rightarrow> Suc (length (filter (leKey c) ks))))"
    by simp
next
  fix doneSet :: "timeval list" and c :: int and streak :: nat
  assume mem: "utcDayKey (Some c) \<in> set doneSet"
  show "((doneSet, utcDayOffset (Some c) (- 1), streak + 1), (doneSet, Some c, streak))
        \<in> measure (\<lambda>(ks, cur, n).
            case cur of None \<Rightarrow> 0 | Some c \<Rightarrow> Suc (length (filter (leKey c) ks)))"
  proof (cases "utcDayOffset (Some c) (- 1)")
    case None
    then show ?thesis by simp
  next
    case (Some c')
    then show ?thesis
      using countBack_measure [OF mem Some] by simp
  qed
qed

declare countBack.simps [simp del]


record kpi =
  kTotal :: int
  kDone :: int
  kOpen :: int
  kCompletion :: int
  kStreak :: nat

definition doneDayKeys :: "runtime \<Rightarrow> Item list \<Rightarrow> timeval list" where
  "doneDayKeys env doneRows =
     sortBy numCompare (map fst (rollups (\<lambda>v. True) (dayKeyOf env) (filter hasDate doneRows)))"

definition streakFrom :: "timeval list \<Rightarrow> nat option" where
  "streakFrom keys = (if keys \<noteq> [] then countBack keys (last keys) 0 else Some 0)"

text \<open>The KPI computation; \<open>None\<close> when the streak loop does not end.\<close>

definition kpis :: "runtime \<Rightarrow> Item list \<Rightarrow> kpi option" where
  "kpis env rows =
     (let total = int (length rows);
          doneRows = filter isDoneDay rows;
          done = int (length doneRows);
          opn = total - done;
          completion = (if total \<noteq> 0 then Math_round (of_int done / of_int total * 100) else 0)
      in case streakFrom (doneDayKeys env doneRows) of
           None \<Rightarrow> None
         | Some streak \<Rightarrow>
             Some \<lparr> kTotal = total, kDone = done, kOpen = opn, kCompletion = completion,
                    kStreak = streak \<rparr>)"

section \<open>The dashboard: weekly velocity, burn-up and topic averages\<close>

record weekPoint =
  week :: timeval
  count :: nat

record maPoint =
  maWeek :: timeval
  avg :: rat

definition weekly :: "runtime \<Rightarrow> Item list \<Rightarrow> weekPoint list" where
  "weekly env data =
     sortBy (\<lambda>a b. numCompare (week a) (week b))
       (map (\<lambda>(k, v). \<lparr> week = k, count = v \<rparr>)
          (rollups length (weekKeyOf env) (filter (\<lambda>r. hasDate r \<and> isDoneDay r) data)))"

text \<open>\<open>arr.slice(start, end)\<close> for indices within the array, and \<open>d3.mean\<close> of counts.\<close>

definition slice :: "'a list \<Rightarrow> nat \<Rightarrow> nat \<Rightarrow> 'a list" where
  "slice xs a b = take (b - a) (drop a xs)"

definition mean :: "rat list \<Rightarrow> rat option" where
  "mean vs = (if vs = [] then None else Some (sum_list vs / of_nat (length vs)))"

definition movingAverage :: "weekPoint list \<Rightarrow> maPoint list" where
  "movingAverage arr =
     map (\<lambda>i. let start = nat (max 0 (int i - 2));
                   sl = slice arr start (i + 1)
               in \<lparr> maWeek = week (arr ! i),
                    avg = orElse (mean (map (\<lambda>x. of_nat (count x)) sl)) 0 \<rparr>)
       [0..<length arr]"

record dayPoint =
  day :: timeval
  added :: nat
  doneCount :: nat

record burnPoint =
  bDay :: timeval
  total :: nat
  bDone :: nat

definition daily :: "runtime \<Rightarrow> Item list \<Rightarrow> dayPoint list" where
  "daily env data =
     sortBy (\<lambda>a b. numCompare (day a) (day b))
       (map (\<lambda>(k, v). \<lparr> day = k, added = fst v, doneCount = snd v \<rparr>)
          (rollups (\<lambda>v. (length v, length (filter isDoneDay v))) (dayKeyOf env)
             (filter hasDate data)))"

fun runningSums :: "nat \<Rightarrow> nat \<Rightarrow> dayPoint list \<Rightarrow> burnPoint list" where
  "runningSums cumTotal cumDone [] = []"
| "runningSums cumTotal cumDone (d # ds) =
     \<lparr> bDay = day d, total = cumTotal + added d, bDone = cumDone + doneCount d \<rparr> #
     runningSums (cumTotal + added d) (cumDone + doneCount d) ds"

definition series :: "runtime \<Rightarrow> Item list \<Rightarrow> burnPoint list" where
  "series env data = runningSums 0 0 (daily env data)"

text \<open>\<open>Number(x)\<close> and \<open>Number.isFinite\<close> on a field that may be absent or \<open>null\<close>.\<close>

definition Number_of :: "jsnum nullable \<Rightarrow> jsnum" where
  "Number_of x = (case x of Undefined \<Rightarrow> NaN | Null \<Rightarrow> Num 0 | Val n \<Rightarrow> n)"

definition isFinite :: "jsnum \<Rightarrow> bool" where
  "isFinite n = (case n of Num i \<Rightarrow> True | _ \<Rightarrow> False)"

definition finiteVal :: "jsnum \<Rightarrow> rat" where
  "finiteVal n = (case n of Num i \<Rightarrow> of_int i | _ \<Rightarrow> 0)"

definition avgPct :: "jsnum nullable list \<Rightarrow> rat" where
  "avgPct arr =
     (let vals = filter isFinite (map Number_of arr)
      in if vals = [] then 0 else orElse (mean (map finiteVal vals)) 0)"

definition TopicWiseBars_rows :: "string \<Rightarrow> Item list \<Rightarrow> (string \<times> rat) list" where
  "TopicWiseBars_rows topicFocus data =
     (if topicFocus = ''both'' then
        [(''Python'', avgPct (map pythonPct data)), (''LLM'', avgPct (map llmPct data)),
         (''Overall'', avgPct (map overallPct data))]
      else if topicFocus = ''python'' then [(''Python'', avgPct (map pythonPct data))]
      else [(''LLM'', avgPct (map llmPct data))])"

section \<open>From the record mapper to the dashboard\<close>

text \<open>
  The route serialises the records as JSON and the dashboard reads them back: an absent
  (\<open>undefined\<close>) field is dropped, the status is its label, the numbers stay numbers.
\<close>

definition statusLabel :: "overallStatus \<Rightarrow> string" where
  "statusLabel st =
     (case st of Done \<Rightarrow> ''Done'' | InProgress \<Rightarrow> ''In Progress'' | Skipped \<Rightarrow> ''Skipped''
      | NotStarted \<Rightarrow> ''Not Started'')"

definition optField :: "'a option \<Rightarrow> 'a nullable" where
  "optField x = (case x of None \<Rightarrow> Undefined | Some v \<Rightarrow> Val v)"

definition toItem :: "ProgressRecord \<Rightarrow> Item" where
  "toItem r =
     \<lparr> date = ProgressRecord.date r,
       status = Some (statusLabel (ProgressRecord.status r)),
       hours = Val (Num (ProgressRecord.hours r)),
       pythonTopic = optField (ProgressRecord.pythonTopic r),
       llmTopic = optField (ProgressRecord.llmTopic r),
       pythonPct = Val (Num (ProgressRecord.pythonPct r)),
       llmPct = Val (Num (ProgressRecord.llmPct r)),
       overallPct = Val (Num (ProgressRecord.overallPct r)) \<rparr>"

section \<open>The ingestion pipeline and the progress route\<close>

text \<open>
  A thrown \<open>Error\<close> with its message. The environment variables of the process. The data
  source client is a parameter: given the credentials, the database identifier and the
  cursor, \<open>databases.query\<close> returns a page of results or throws.
\<close>

datatype exn = Thrown string

record processEnv =
  NOTION_API_KEY :: "string option"
  NOTION_DATABASE_ID :: "string option"

record queryResult =
  results :: "page list"
  has_more :: bool
  next_cursor :: "string option"

type_synonym notionClient = "string \<Rightarrow> string \<Rightarrow> string option \<Rightarrow> exn + queryResult"

text \<open>\<open>EnvSchema\<close>: both variables must be texts of length at least 1.\<close>

definition envIssues :: "processEnv \<Rightarrow> string list" where
  "envIssues pe =
     (case NOTION_API_KEY pe of
        None \<Rightarrow> [''NOTION_API_KEY'']
      | Some k \<Rightarrow> if length k < 1 then [''NOTION_API_KEY''] else []) @
     (case NOTION_DATABASE_ID pe of
        None \<Rightarrow> [''NOTION_DATABASE_ID'']
      | Some k \<Rightarrow> if length k < 1 then [''NOTION_DATABASE_ID''] else [])"

definition parseEnv :: "processEnv \<Rightarrow> exn + (string \<times> string)" where
  "parseEnv pe =
     (case (NOTION_API_KEY pe, NOTION_DATABASE_ID pe) of
        (Some k, Some d) \<Rightarrow>
          if envIssues pe = [] then Inr (k, d)
          else Inl (Thrown (''Missing env vars: '' @ join '', '' (envIssues pe)))
      | _ \<Rightarrow> Inl (Thrown (''Missing env vars: '' @ join '', '' (envIssues pe))))"

text \<open>
  The pagination loop \<open>while (true)\<close>: it goes on while the source reports a further page
  and a cursor (not \<open>null\<close>, not the empty text), and ends with the error when a query
  throws. A source that always reports a further page keeps the loop running: the result
  \<open>None\<close>.
\<close>

partial_function (option) paginate ::
  "(string option \<Rightarrow> exn + queryResult) \<Rightarrow> string option \<Rightarrow> page list \<Rightarrow> (exn + page list) option"
where
  "paginate query cursor rows =
     (case query cursor of
        Inl e \<Rightarrow> Some (Inl e)
      | Inr res \<Rightarrow>
          if has_more res \<and> next_cursor res \<noteq> None \<and> next_cursor res \<noteq> Some []
          then paginate query (next_cursor res) (rows @ results res)
          else Some (Inr (rows @ results res)))"

text \<open>
  \<open>getProgressData\<close>; every mapped record is an object, so \<open>filter(Boolean)\<close> keeps all.
\<close>

definition getProgressData ::
  "runtime \<Rightarrow> processEnv \<Rightarrow> notionClient \<Rightarrow> string option \<Rightarrow> (exn + ProgressRecord list) option"
where
  "getProgressData env pe notion databaseIdOverride =
     (case parseEnv pe of
        Inl e \<Rightarrow> Some (Inl e)
      | Inr (key, dbid) \<Rightarrow>
          (case paginate (notion key (orElse databaseIdOverride dbid)) None [] of
             None \<Rightarrow> None
           | Some (Inl e) \<Rightarrow> Some (Inl e)
           | Some (Inr rows) \<Rightarrow> Some (Inr (map (mapPage env) rows))))"

text \<open>
  The response of the route: a JSON body and an HTTP status. \<open>QuerySchema\<close> is
  \<open>z.object({ db: z.string().optional() })\<close>: an absent \<open>db\<close> and any text pass, anything else
  fails (\<open>None\<close>).
\<close>

datatype body = SuccessBody "ProgressRecord list" | ErrorBody string string

datatype response = Json body nat

definition QuerySchema_safeParse :: "string nullable \<Rightarrow> string option option" where
  "QuerySchema_safeParse db =
     (case db of Undefined \<Rightarrow> Some None | Val s \<Rightarrow> Some (Some s) | Null \<Rightarrow> None)"

text \<open>
  \<open>GET\<close>, given the value of \<open>searchParams.get("db")\<close> (\<open>None\<close> is \<open>null\<close>, the parameter
  is absent); \<open>None\<close> as result means that no response is produced.
\<close>

definition GET ::
  "runtime \<Rightarrow> processEnv \<Rightarrow> notionClient \<Rightarrow> string option \<Rightarrow> response option"
where
  "GET env pe notion db =
     (case QuerySchema_safeParse (case db of None \<Rightarrow> Undefined | Some s \<Rightarrow> Val s) of
        None \<Rightarrow> Some (Json (ErrorBody ''BAD_QUERY'' ''Invalid query params'') 400)
      | Some dbOverride \<Rightarrow>
          (case getProgressData env pe notion dbOverride of
             None \<Rightarrow> None
           | Some (Inl err) \<Rightarrow>
               Some (Json (ErrorBody ''SERVER_ERROR'' ''Failed to fetch Notion data'') 500)
           | Some (Inr data) \<Rightarrow> Some (Json (SuccessBody data) 200)))"

section \<open>A sample runtime\<close>

text \<open>
  A runtime for concrete evaluations: the clock reads 2024-06-15T12:34:56.789Z, the
  implementation-specific parser rejects every text, and local time is UTC (weeks start on
  Sunday for \<open>d3.timeWeek\<close>).
\<close>

definition sampleRuntime :: runtime where
  "sampleRuntime =
     \<lparr> now = 1718454896789,
       implParse = (\<lambda>s. None),
       timeWeekFloor = (\<lambda>t. (Day t - (Day t + 4) mod 7) * msPerDay),
       timeWeekOffset = (\<lambda>t k. t + k * 7 * msPerDay),
       localYearStart = (\<lambda>t. utcMidnight (YearFromTime t) 1 1) \<rparr>"

text \<open>
  The native parse of \<open>parseUTC\<close> is rejected when it yields \<open>NaN\<close> or a year that is not
  after 2015.
\<close>

definition nativeRejected :: "runtime \<Rightarrow> string \<Rightarrow> bool" where
  "nativeRejected env s =
     (case Date_parse env s of None \<Rightarrow> True | Some t \<Rightarrow> \<not> YearFromTime t > 2015)"

text \<open>
  Ten raw pages: two with both topics completed, three in progress, one without a date and
  four not started; and the items the dashboard receives for them.
\<close>

definition samplePage :: "string option \<Rightarrow> string \<Rightarrow> string \<Rightarrow> page" where
  "samplePage d py llm =
     \<lparr> properties = Some
         ((case d of None \<Rightarrow> Map.empty | Some s \<Rightarrow> [''Day'' \<mapsto> DateProp (Some s)])
            (''Python Status'' \<mapsto> Status (Some py), ''LLM Status'' \<mapsto> Select (Some llm))) \<rparr>"

definition samplePages :: "page list" where
  "samplePages =
     [samplePage (Some ''2024-03-04'') ''Completed'' ''Completed'',
      samplePage (Some ''2024-03-05'') ''Completed'' ''completed'',
      samplePage (Some ''2024-03-05'') ''In progress'' ''Not started'',
      samplePage (Some ''2024-03-06'') ''Not started'' ''In progress'',
      samplePage (Some ''2024-03-06'') ''In progress'' ''In progress'',
      samplePage None ''Not started'' ''Not started'',
      samplePage (Some ''2024-03-06'') ''Not started'' ''Not started'',
      samplePage (Some ''2024-03-11'') ''Not started'' ''Skipped'',
      samplePage (Some ''2024-03-11'') ''Not started'' ''Not started'',
      samplePage (Some ''2024-03-11'') ''Not started'' ''Not started'']"

definition sampleItems :: "Item list" where
  "sampleItems = map (\<lambda>pg. toItem (mapPage sampleRuntime pg)) samplePages"

text \<open>
  Sample environment variables and a sample data source that knows the database
  \<open>db-1\<close> only and answers with the sample pages in one page of results.
\<close>

definition sampleEnvVars :: processEnv where
  "sampleEnvVars = \<lparr> NOTION_API_KEY = Some ''secret'', NOTION_DATABASE_ID = Some ''db-1'' \<rparr>"

definition sampleNotion :: notionClient where
  "sampleNotion auth database_id cursor =
     (if database_id = ''db-1''
      then Inr \<lparr> results = samplePages, has_more = False, next_cursor = None \<rparr>
      else Inl (Thrown ''Could not find database''))"

text \<open>
  Four done records on the days \<open>D\<close> (twice), \<open>D - 1\<close> and \<open>D - 3\<close>, for \<open>D\<close> = 2024-03-05.
\<close>

definition gapItems :: "Item list" where
  "gapItems =
     map (\<lambda>d. \<lparr> date = Some d, status = Some ''In Progress'', hours = Val (Num 0),
                 pythonTopic = Undefined, llmTopic = Undefined, pythonPct = Val (Num 100),
                 llmPct = Val (Num 0), overallPct = Val (Num 0) \<rparr>)
       [''2024-03-05'', ''2024-03-02'', ''2024-03-04'', ''2024-03-05'']"

section \<open>The status rule as the specification words it\<close>

text \<open>
  The tie-break order of the specification, on the two lower-cased status texts: Done first,
  then InProgress, then Skipped, then NotStarted.
\<close>

definition deriveOverallStatus_spec :: "string \<Rightarrow> string \<Rightarrow> overallStatus" where
  "deriveOverallStatus_spec a b =
     (if a = ''completed'' \<and> b = ''completed'' then Done
      else if a = ''in progress'' \<or> b = ''in progress'' then InProgress
      else if (a = ''skipped'' \<or> b = ''skipped'') \<and> a \<noteq> ''completed'' \<and> b \<noteq> ''completed''
      then Skipped
      else NotStarted)"

section \<open>The streak as the specification words it\<close>

text \<open>
  A parsed date is a valid instant when it is not \<open>NaN\<close> and lies in the range of time
  values; a day key is in range when it is, moreover, a whole number of days.
\<close>

definition validTime :: "timeval \<Rightarrow> bool" where
  "validTime d = (case d of None \<Rightarrow> False | Some t \<Rightarrow> \<bar>t\<bar> \<le> 8640000000000000)"

text \<open>
  The streak of a list of day keys: 0 when there is none; otherwise, from the latest key
  \<open>D\<close>, the number \<open>n\<close> of days \<open>D\<close>, \<open>D - 1\<close>, ... that are present up to the first gap.
\<close>

definition streak_spec :: "timeval list \<Rightarrow> nat \<Rightarrow> bool" where
  "streak_spec keys n =
     (if keys = [] then n = 0
      else (\<exists>D. Some D \<in> set keys \<and> (\<forall>t. Some t \<in> set keys \<longrightarrow> t \<le> D) \<and>
                (\<forall>i<n. Some (D - int i * msPerDay) \<in> set keys) \<and>
                Some (D - int n * msPerDay) \<notin> set keys))"

definition dayKeyInRange :: "timeval \<Rightarrow> bool" where
  "dayKeyInRange k =
     (case k of None \<Rightarrow> False
      | Some t \<Rightarrow> t mod msPerDay = 0 \<and> \<bar>t\<bar> \<le> 8640000000000000)"

section \<open>Properties of the date arithmetic\<close>

lemma yearDown_spec:
  "d < DayFromYear (y + 1) \<Longrightarrow>
   DayFromYear (yearDown y d) \<le> d \<and> d < DayFromYear (yearDown y d + 1)"
proof (induction y d rule: yearDown.induct)
  case (1 y d)
  show ?case
  proof (cases "DayFromYear y \<le> d")
    case True
    with "1.prems" show ?thesis
      by (simp add: yearDown.simps [of y d])
  next
    case False
    then have "d < DayFromYear (y - 1 + 1)" by simp
    with "1.IH" False show ?thesis
      by (simp add: yearDown.simps [of y d])
  qed
qed

lemma DayFromYear_lower: "0 \<le> n \<Longrightarrow> 365 * n \<le> DayFromYear (1970 + n)"
proof (induction n rule: int_ge_induct)
  case base
  show ?case by (simp add: DayFromYear_def)
next
  case (step i)
  have "DayFromYear (1970 + i + 1) = DayFromYear (1970 + i) + DaysInYear (1970 + i)"
    by (rule DayFromYear_step)
  then show ?case
    using step DaysInYear_bounds [of "1970 + i"] by (simp add: add.assoc)
qed

lemma YearFromDay_spec:
  "DayFromYear (YearFromDay d) \<le> d \<and> d < DayFromYear (YearFromDay d + 1)"
proof (cases "0 \<le> d")
  case True
  have "d < 365 * (d div 365 + 1)"
    using True by (simp add: algebra_simps)
  also have "\<dots> \<le> DayFromYear (1970 + (d div 365 + 1))"
    using True DayFromYear_lower [of "d div 365 + 1"] by (simp add: pos_imp_zdiv_nonneg_iff)
  finally have "d < DayFromYear (1970 + d div 365 + 1)"
    by (simp add: add.assoc)
  then show ?thesis
    using True yearDown_spec [of d "1970 + d div 365"] by (simp add: YearFromDay_def)
next
  case False
  then have "d < DayFromYear (1969 + 1)"
    by (simp add: DayFromYear_def)
  then show ?thesis
    using False yearDown_spec [of d 1969] by (simp add: YearFromDay_def)
qed

lemma DayFromYear_mono_aux: "0 \<le> n \<Longrightarrow> DayFromYear y \<le> DayFromYear (y + n)"
proof (induction n rule: int_ge_induct)
  case base
  show ?case by simp
next
  case (step i)
  have "DayFromYear (y + i + 1) = DayFromYear (y + i) + DaysInYear (y + i)"
    by (rule DayFromYear_step)
  then show ?case
    using step DaysInYear_bounds [of "y + i"] by (simp add: add.assoc)
qed

lemma DayFromYear_mono: "y \<le> z \<Longrightarrow> DayFromYear y \<le> DayFromYear z"
  using DayFromYear_mono_aux [of "z - y" y] by simp

lemma YearFromDay_unique:
  assumes "DayFromYear y \<le> d" and "d < DayFromYear (y + 1)"
  shows "YearFromDay d = y"
proof (rule ccontr)
  assume ne: "YearFromDay d \<noteq> y"
  note s = YearFromDay_spec [of d]
  show False
  proof (cases "YearFromDay d < y")
    case True
    then have "DayFromYear (YearFromDay d + 1) \<le> DayFromYear y"
      by (intro DayFromYear_mono) simp
    with s assms show False by linarith
  next
    case False
    with ne have "DayFromYear (y + 1) \<le> DayFromYear (YearFromDay d)"
      by (intro DayFromYear_mono) simp
    with s assms show False by linarith
  qed
qed

lemma DayWithinYear_range:
  "0 \<le> DayWithinYear t \<and> DayWithinYear t < DaysInYear (YearFromTime t)"
  using YearFromDay_spec [of "Day t"] DayFromYear_step [of "YearFromTime t"]
  by (simp add: DayWithinYear_def YearFromTime_def)

lemma MonthFromTime_range: "0 \<le> MonthFromTime t \<and> MonthFromTime t \<le> 11"
  by (simp add: MonthFromTime_def Let_def)

lemma MakeDay_inverse:
  "MakeDay (YearFromTime t) (MonthFromTime t) (DateFromTime t) = Day t"
proof -
  have m: "MonthFromTime t div 12 = 0" "MonthFromTime t mod 12 = MonthFromTime t"
    using MonthFromTime_range [of t] by simp_all
  have "monthStart (YearFromTime t) (MonthFromTime t) + DateFromTime t - 1 = DayWithinYear t"
    using DayWithinYear_range [of t]
    by (simp add: monthStart_def DateFromTime_def MonthFromTime_def InLeapYear_def Let_def)
  then show ?thesis
    by (simp add: MakeDay_def m DayWithinYear_def Let_def)
qed

lemma YearFromTime_nonneg: "0 \<le> t \<Longrightarrow> 1970 \<le> YearFromTime t"
proof (rule ccontr)
  assume t: "0 \<le> t" and "\<not> 1970 \<le> YearFromTime t"
  then have "DayFromYear (YearFromTime t + 1) \<le> DayFromYear 1970"
    by (intro DayFromYear_mono) simp
  moreover have "DayFromYear 1970 = 0"
    by (simp add: DayFromYear_def)
  moreover have "0 \<le> Day t"
    using t by (simp add: Day_def msPerDay_def pos_imp_zdiv_nonneg_iff)
  ultimately show False
    using YearFromDay_spec [of "Day t"] by (simp add: YearFromTime_def)
qed

lemma Date_UTC_today:
  assumes "0 \<le> t" and "t \<le> 8640000000000000"
  shows "Date_UTC (YearFromTime t) (MonthFromTime t) (DateFromTime t) = Some (Day t * msPerDay)"
proof -
  have y: "(if 0 \<le> YearFromTime t \<and> YearFromTime t \<le> 99 then 1900 + YearFromTime t
            else YearFromTime t) = YearFromTime t"
    using YearFromTime_nonneg [OF assms(1)] by simp
  have "0 \<le> Day t * msPerDay" "Day t * msPerDay \<le> t"
    using assms(1) by (simp_all add: Day_def msPerDay_def pos_imp_zdiv_nonneg_iff)
  then have "\<bar>Day t * msPerDay\<bar> \<le> 8640000000000000"
    using assms(2) by simp
  then show ?thesis
    by (simp add: Date_UTC_def y MakeDay_inverse MakeDate_def MakeTime_def TimeClip_def)
qed

lemma validDate_month:
  assumes "validDate y m d"
  shows "m = 1 \<or> m = 2 \<or> m = 3 \<or> m = 4 \<or> m = 5 \<or> m = 6 \<or> m = 7 \<or> m = 8 \<or> m = 9 \<or>
         m = 10 \<or> m = 11 \<or> m = 12"
proof -
  have "1 \<le> m" "m \<le> 12"
    using assms by (simp_all add: validDate_def)
  then show ?thesis by arith
qed

lemma validDate_within:
  assumes "validDate y m d"
  shows "0 \<le> monthStart y (m - 1) + d - 1 \<and> monthStart y (m - 1) + d - 1 < DaysInYear y"
  using validDate_month [OF assms] assms DaysInYear_bounds [of y]
  apply (elim disjE)
  apply (simp_all add: validDate_def monthStart_def DaysInMonth_def Let_def split: if_splits)
  done

lemma MakeDay_valid:
  assumes "validDate y m d"
  shows "MakeDay y (m - 1) d = DayFromYear y + (monthStart y (m - 1) + d - 1)"
proof -
  have "0 \<le> m - 1" "m - 1 < 12"
    using assms by (simp_all add: validDate_def)
  then have "(m - 1) div 12 = 0" "(m - 1) mod 12 = m - 1"
    by simp_all
  then show ?thesis
    by (simp add: MakeDay_def)
qed

lemma Day_MakeDate: "0 \<le> w \<Longrightarrow> w < msPerDay \<Longrightarrow> Day (MakeDate dy w) = dy"
  by (simp add: Day_def MakeDate_def msPerDay_def)

lemma utcMidnight_calendar:
  assumes v: "validDate y m d"
  shows "YearFromTime (utcMidnight y m d) = y \<and> MonthFromTime (utcMidnight y m d) = m - 1 \<and>
         DateFromTime (utcMidnight y m d) = d \<and> TimeWithinDay (utcMidnight y m d) = 0"
proof -
  let ?t = "utcMidnight y m d"
  let ?w = "monthStart y (m - 1) + d - 1"
  have dy: "Day ?t = DayFromYear y + ?w"
    by (simp add: utcMidnight_def Day_MakeDate msPerDay_def MakeDay_valid [OF v])
  have w: "0 \<le> ?w" "?w < DaysInYear y"
    using validDate_within [OF v] by simp_all
  have yr: "YearFromTime ?t = y"
    unfolding YearFromTime_def dy
    using w by (intro YearFromDay_unique) (simp_all add: DayFromYear_step)
  have dwy: "DayWithinYear ?t = ?w"
    by (simp add: DayWithinYear_def yr dy)
  have mo: "MonthFromTime ?t = m - 1"
    unfolding MonthFromTime_def dwy InLeapYear_def yr
    using validDate_month [OF v] v DaysInYear_bounds [of y]
    apply (elim disjE)
    apply (simp_all add: validDate_def monthStart_def DaysInMonth_def Let_def split: if_splits)
    done
  have da: "DateFromTime ?t = d"
    unfolding DateFromTime_def dwy InLeapYear_def yr mo
    using validDate_month [OF v]
    apply (elim disjE)
    apply (simp_all add: monthStart_def)
    done
  have "TimeWithinDay ?t = 0"
    by (simp add: TimeWithinDay_def utcMidnight_def MakeDate_def)
  with yr mo da show ?thesis by simp
qed

section \<open>Properties of the record mapper\<close>

text \<open>
  Claim C1. For every raw page, the record that \<open>mapPage\<close> produces has \<open>overallPct = 100\<close>
  exactly when \<open>pythonPct = 100\<close> and \<open>llmPct = 100\<close>, and \<open>overallPct = 0\<close> otherwise.
\<close>

theorem mapPage_overallPct:
  "(ProgressRecord.overallPct (mapPage env pg) = 100) =
     (ProgressRecord.pythonPct (mapPage env pg) = 100 \<and> ProgressRecord.llmPct (mapPage env pg) = 100) \<and>
   ProgressRecord.overallPct (mapPage env pg) =
     (if ProgressRecord.pythonPct (mapPage env pg) = 100 \<and> ProgressRecord.llmPct (mapPage env pg) = 100 then 100 else 0)"
  by (simp add: mapPage_def Let_def)

text \<open>
  Claim C2. \<open>deriveOverallStatus\<close> is a total function of the two raw status texts, absent
  ones included, and follows the fixed tie-break order on the lower-cased texts: both
  "completed" gives Done; otherwise either "in progress" gives InProgress; otherwise either
  "skipped" with neither "completed" gives Skipped; otherwise NotStarted. In particular
  ("completed", "in progress") gives InProgress and ("completed", "completed") gives Done.
\<close>

theorem deriveOverallStatus_tie_break:
  "deriveOverallStatus py llm =
     deriveOverallStatus_spec (toLowerCase (orElse py [])) (toLowerCase (orElse llm [])) \<and>
   deriveOverallStatus (Some ''completed'') (Some ''in progress'') = InProgress \<and>
   deriveOverallStatus (Some ''completed'') (Some ''completed'') = Done \<and>
   deriveOverallStatus None None = NotStarted"
  by (simp add: deriveOverallStatus_def deriveOverallStatus_spec_def Let_def orElse_def
      toLowerCase_def toLowerChar_def)

section \<open>Properties of the date normalizer\<close>

lemma isoParse_midnight:
  assumes p: "isoDatePattern s"
    and v: "validDate (numOf (sub s 0 4)) (numOf (sub s 5 2)) (numOf (sub s 8 2))"
  shows "isoParse (s @ ''T00:00:00Z'') =
         Some (utcMidnight (numOf (sub s 0 4)) (numOf (sub s 5 2)) (numOf (sub s 8 2)))"
proof -
  have len: "length s = 10"
    using p by (simp add: isoDatePattern_def)
  have t: "isoTimePattern ''T00:00:00Z''"
    by (simp add: isoTimePattern_def sub_def isDigit_def)
  have parts: "sub (s @ ''T00:00:00Z'') 0 4 = sub s 0 4" "sub (s @ ''T00:00:00Z'') 5 2 = sub s 5 2"
    "sub (s @ ''T00:00:00Z'') 8 2 = sub s 8 2"
    using len by (simp_all add: sub_def)
  have zero: "numOf (sub (s @ ''T00:00:00Z'') 11 2) = 0" "numOf (sub (s @ ''T00:00:00Z'') 14 2) = 0"
    "numOf (sub (s @ ''T00:00:00Z'') 17 2) = 0"
    using len by (simp_all add: sub_def numOf_def digitVal_def)
  show ?thesis
    using len p v t
    by (simp add: isoParse_def parts zero utcMidnight_def MakeTime_def Let_def)
qed

text \<open>
  Claim C4. For a text of the exact form YYYY-MM-DD that names a calendar date, \<open>parseUTC\<close>
  returns UTC midnight of that date: the result is the same for every runtime (clock,
  implementation parser, local time zone), and its UTC year, month and day are the ones
  written in the text, at time of day 0. The text "2024-03-05" gives 1709596800000.
\<close>

theorem parseUTC_iso_date:
  assumes "isoDatePattern s"
    and "validDate (numOf (sub s 0 4)) (numOf (sub s 5 2)) (numOf (sub s 8 2))"
  shows "parseUTC env (Some s) =
           Some (Some (utcMidnight (numOf (sub s 0 4)) (numOf (sub s 5 2)) (numOf (sub s 8 2)))) \<and>
         parseUTC env' (Some s) = parseUTC env (Some s) \<and>
         YearFromTime (utcMidnight (numOf (sub s 0 4)) (numOf (sub s 5 2)) (numOf (sub s 8 2))) =
           numOf (sub s 0 4) \<and>
         MonthFromTime (utcMidnight (numOf (sub s 0 4)) (numOf (sub s 5 2)) (numOf (sub s 8 2))) + 1 =
           numOf (sub s 5 2) \<and>
         DateFromTime (utcMidnight (numOf (sub s 0 4)) (numOf (sub s 5 2)) (numOf (sub s 8 2))) =
           numOf (sub s 8 2) \<and>
         TimeWithinDay (utcMidnight (numOf (sub s 0 4)) (numOf (sub s 5 2)) (numOf (sub s 8 2))) = 0"
proof -
  have ne: "s \<noteq> []"
    using assms(1) by (auto simp add: isoDatePattern_def)
  have "parseUTC e (Some s) =
        Some (Some (utcMidnight (numOf (sub s 0 4)) (numOf (sub s 5 2)) (numOf (sub s 8 2))))" for e
    using ne assms(1) by (simp add: parseUTC_def Date_parse_def isoParse_midnight [OF assms])
  then show ?thesis
    using utcMidnight_calendar [OF assms(2)] by simp
qed

theorem parseUTC_iso_date_witness:
  "isoDatePattern ''2024-03-05'' \<and> validDate 2024 3 5 \<and>
   parseUTC sampleRuntime (Some ''2024-03-05'') = Some (Some 1709596800000) \<and>
   YearFromTime 1709596800000 = 2024 \<and> MonthFromTime 1709596800000 + 1 = 3 \<and>
   DateFromTime 1709596800000 = 5"
proof -
  have p: "isoDatePattern ''2024-03-05''"
    by (simp add: isoDatePattern_def sub_def isDigit_def)
  have n: "numOf (sub ''2024-03-05'' 0 4) = 2024" "numOf (sub ''2024-03-05'' 5 2) = 3"
    "numOf (sub ''2024-03-05'' 8 2) = 5"
    by (simp_all add: sub_def numOf_def digitVal_def)
  have v: "validDate 2024 3 5"
    by (simp add: validDate_def DaysInMonth_def)
  have u: "utcMidnight 2024 3 5 = 1709596800000"
    by (simp add: utcMidnight_def MakeDate_def MakeDay_def monthStart_def DaysInYear_def
        DayFromYear_def msPerDay_def)
  show ?thesis
    using parseUTC_iso_date [of "''2024-03-05''" sampleRuntime sampleRuntime] p v
    by (simp add: n u)
qed

text \<open>
  Claim C3, as amended. \<open>parseUTC\<close> is a total function with no error result. When the clock
  is not before 1970, a non-empty text that is not of the form YYYY-MM-DD, that the native
  parse rejects and that does not match the month-and-day pattern yields UTC midnight of the
  current date. The empty text and an absent text yield \<open>null\<close>.
\<close>

theorem parseUTC_unparseable:
  assumes "0 \<le> now env" and "now env \<le> 8640000000000000"
    and "s \<noteq> []" and "\<not> isoDatePattern s" and "nativeRejected env s"
    and "matchMonthDay s = None"
  shows "parseUTC env (Some s) = Some (Some (Day (now env) * msPerDay)) \<and>
         parseUTC env (Some []) = None \<and> parseUTC env None = None"
proof -
  have "parseUTC_rest env s = Some (Day (now env) * msPerDay)"
    using assms(6) by (simp add: parseUTC_rest_def Date_UTC_today [OF assms(1,2)])
  then show ?thesis
    using assms(3,4,5) by (simp add: parseUTC_def nativeRejected_def split: option.splits)
qed

theorem parseUTC_unparseable_witness:
  "0 \<le> now sampleRuntime \<and> now sampleRuntime \<le> 8640000000000000 \<and> ''garbage'' \<noteq> [] \<and>
   \<not> isoDatePattern ''garbage'' \<and> nativeRejected sampleRuntime ''garbage'' \<and>
   matchMonthDay ''garbage'' = None \<and>
   parseUTC sampleRuntime (Some ''garbage'') = Some (Some 1718409600000)"
proof -
  have a: "0 \<le> now sampleRuntime" "now sampleRuntime \<le> 8640000000000000"
    by (simp_all add: sampleRuntime_def)
  have b: "\<not> isoDatePattern ''garbage''"
    by (simp add: isoDatePattern_def)
  have c: "nativeRejected sampleRuntime ''garbage''"
    by (simp add: nativeRejected_def Date_parse_def isoParse_def isoDatePattern_def
        sampleRuntime_def)
  have d: "matchMonthDay ''garbage'' = None"
    by (simp add: matchMonthDay_def matchCore_def sub_def isAlpha_def isWhiteSpace_def Let_def)
  have e: "Day (now sampleRuntime) * msPerDay = 1718409600000"
    by (simp add: sampleRuntime_def Day_def msPerDay_def)
  show ?thesis
    using parseUTC_unparseable [OF a _ b c d] a b c d by (simp add: e)
qed

text \<open>
  The claim as stated fails at the empty text: the result is \<open>null\<close>, not UTC midnight of
  the current date.
\<close>

theorem parseUTC_empty_counterexample:
  "parseUTC sampleRuntime (Some []) \<noteq> Some (Some (Day (now sampleRuntime) * msPerDay))"
  by (simp add: parseUTC_def)

section \<open>Properties of the dashboard series\<close>

lemma length_runningSums: "length (runningSums a b ds) = length ds"
  by (induction ds arbitrary: a b) simp_all

lemma runningSums_first:
  "ds \<noteq> [] \<Longrightarrow> a \<le> total (runningSums a b ds ! 0) \<and> b \<le> bDone (runningSums a b ds ! 0)"
  by (cases ds) simp_all

lemma runningSums_step:
  "Suc i < length ds \<Longrightarrow>
   total (runningSums a b ds ! i) \<le> total (runningSums a b ds ! Suc i) \<and>
   bDone (runningSums a b ds ! i) \<le> bDone (runningSums a b ds ! Suc i)"
proof (induction ds arbitrary: a b i)
  case Nil
  then show ?case by simp
next
  case (Cons d ds)
  show ?case
  proof (cases i)
    case 0
    with Cons.prems have "ds \<noteq> []" by auto
    then show ?thesis
      using 0 runningSums_first [of ds "a + added d" "b + doneCount d"] by simp
  next
    case (Suc j)
    with Cons.prems have "Suc j < length ds" by simp
    then show ?thesis
      using Suc Cons.IH [of j "a + added d" "b + doneCount d"] by simp
  qed
qed

text \<open>
  Claim C7. In the cumulative burn-up series over any record sequence, the running total and
  the running done count never decrease from one point to the next.
\<close>

theorem series_monotone:
  "\<forall>i. 0 < i \<and> i < length (series env data) \<longrightarrow>
     total (series env data ! (i - 1)) \<le> total (series env data ! i) \<and>
     bDone (series env data ! (i - 1)) \<le> bDone (series env data ! i)"
proof (intro allI impI)
  fix i
  assume i: "0 < i \<and> i < length (series env data)"
  then obtain j where j: "i = Suc j"
    by (cases i) auto
  with i have "Suc j < length (daily env data)"
    by (simp add: series_def length_runningSums)
  then show "total (series env data ! (i - 1)) \<le> total (series env data ! i) \<and>
     bDone (series env data ! (i - 1)) \<le> bDone (series env data ! i)"
    using runningSums_step [of j "daily env data" 0 0] by (simp add: series_def j)
qed

lemma slice_nth_sum:
  fixes f :: "'a \<Rightarrow> rat"
  assumes "b \<le> length xs"
  shows "sum_list (map f (slice xs a b)) = (\<Sum>j = a..<b. f (xs ! j))"
proof -
  have "map (nth xs) [a..<b] = slice xs a b"
    using assms by (intro map_upt_eqI) (simp_all add: slice_def)
  then have e: "slice xs a b = map (nth xs) [a..<b]"
    by (rule sym)
  have "map f (slice xs a b) = map (\<lambda>j. f (xs ! j)) [a..<b]"
    unfolding e by (simp add: comp_def)
  then show ?thesis
    by (simp add: interv_sum_list_conv_sum_set_nat)
qed

lemma movingAverage_nth:
  assumes "i < length arr"
  shows "avg (movingAverage arr ! i) =
         (\<Sum>j = i - 2..<i + 1. of_nat (count (arr ! j))) / of_nat (i + 1 - (i - 2))"
proof -
  have st: "nat (max 0 (int i - 2)) = i - 2"
    by simp
  have ne: "slice arr (i - 2) (i + 1) \<noteq> []"
    using assms by (simp add: slice_def) arith
  have len: "length (slice arr (i - 2) (i + 1)) = i + 1 - (i - 2)"
    using assms by (simp add: slice_def)
  have "avg (movingAverage arr ! i) =
        orElse (mean (map (\<lambda>x. of_nat (count x)) (slice arr (i - 2) (i + 1)))) 0"
    using assms by (simp add: movingAverage_def Let_def st del: upt_Suc)
  also have "\<dots> = sum_list (map (\<lambda>x. of_nat (count x)) (slice arr (i - 2) (i + 1))) /
                   of_nat (i + 1 - (i - 2))"
    using ne len by (simp add: mean_def orElse_def)
  also have "sum_list (map (\<lambda>x. of_nat (count x) :: rat) (slice arr (i - 2) (i + 1))) =
             (\<Sum>j = i - 2..<i + 1. of_nat (count (arr ! j)))"
    using assms by (intro slice_nth_sum) simp
  finally show ?thesis .
qed

text \<open>
  Claim C6. The moving average at index \<open>i\<close> of the weekly series is the mean of the counts
  of the point \<open>i\<close> and of up to two points before it in the series (data points, not
  calendar weeks): at the first point it is that point's own count, at the third point it is
  the mean of the first three counts. The mean is taken over exact rationals.
\<close>

theorem movingAverage_window:
  "(\<forall>i. i < length arr \<longrightarrow>
      avg (movingAverage arr ! i) =
        (\<Sum>j = i - 2..<i + 1. of_nat (count (arr ! j))) / of_nat (min (i + 1) 3)) \<and>
   (0 < length arr \<longrightarrow> avg (movingAverage arr ! 0) = of_nat (count (arr ! 0))) \<and>
   (2 < length arr \<longrightarrow>
      avg (movingAverage arr ! 2) =
        (of_nat (count (arr ! 0)) + of_nat (count (arr ! 1)) + of_nat (count (arr ! 2))) / 3)"
proof (intro conjI allI impI)
  fix i
  assume "i < length arr"
  moreover have "i + 1 - (i - 2) = min (i + 1) 3"
    by arith
  ultimately show "avg (movingAverage arr ! i) =
        (\<Sum>j = i - 2..<i + 1. of_nat (count (arr ! j))) / of_nat (min (i + 1) 3)"
    using movingAverage_nth [of i arr] by simp
next
  assume "0 < length arr"
  then show "avg (movingAverage arr ! 0) = of_nat (count (arr ! 0))"
    using movingAverage_nth [of 0 arr] by simp
next
  assume "2 < length arr"
  moreover have "{0..<3::nat} = {0, 1, 2}"
    by auto
  ultimately show "avg (movingAverage arr ! 2) =
        (of_nat (count (arr ! 0)) + of_nat (count (arr ! 1)) + of_nat (count (arr ! 2))) / 3"
    using movingAverage_nth [of 2 arr] by simp
qed

section \<open>Evaluations on the sample data\<close>

lemma replicate_numeral: "replicate (numeral k) x = x # replicate (pred_numeral k) x"
  by (simp add: numeral_eq_Suc)

lemma floor_rat_numeral: "\<lfloor>(numeral a / numeral b :: rat)\<rfloor> = numeral a div numeral b"
  using floor_divide_of_int_eq [of "numeral a" "numeral b", where ?'a = rat] by simp

lemmas string_eval = toLowerCase_def toLowerChar_def trim_def isWhiteSpace_def orElse_def
  isDigit_def isAlpha_def digitVal_def numOf_def sub_def char_of_eq_iff replicate_numeral

lemmas date_eval = msPerDay_def Day_def TimeWithinDay_def DaysInYear_def DayFromYear_def
  YearFromDay_def YearFromTime_def InLeapYear_def DayWithinYear_def MonthFromTime_def
  DateFromTime_def monthStart_def MakeDay_def MakeTime_def MakeDate_def TimeClip_def
  Date_UTC_def DaysInMonth_def validDate_def isoDatePattern_def isoTimePattern_def
  isoParse_def Date_parse_def padZero_def pad_def toISOString_def toISODate_def
  yearDown.simps String_num_def

lemmas dash_eval = isDoneDay_def orZero_def ge100_def hasDate_def utcDayFloor_def utcDayOffset_def
  WeekDay_def utcMondayFloor_def utcDayKey_def utcWeekKey_def parsedDate_def dayKeyOf_def
  weekKeyOf_def group_def rollups_def sortBy_def numCompare_def rangeStart_def notBefore_def
  filtered_def Math_round_def doneDayKeys_def streakFrom_def kpis_def weekly_def daily_def
  series_def countBack.simps msPerDay_def Day_def TimeClip_def floor_rat_numeral

lemma mapPage_samplePage:
  "toItem (mapPage env (samplePage d py llm)) =
     \<lparr> date = toISODate env d,
       status = Some (statusLabel (deriveOverallStatus (Some py) (Some llm))),
       hours = Val (Num 0), pythonTopic = Undefined, llmTopic = Undefined,
       pythonPct = Val (Num (progressFromStatus (Some py))),
       llmPct = Val (Num (progressFromStatus (Some llm))),
       overallPct = Val (Num (if progressFromStatus (Some py) = 100 \<and>
                                 progressFromStatus (Some llm) = 100 then 100 else 0)) \<rparr>"
  by (cases d)
    (simp_all add: samplePage_def mapPage_def toItem_def dateCandidates_def F_pythonStatus_def
      F_llmStatus_def F_pythonTopic_def F_llmTopic_def optField_def orElse_def toISODate_def
      Let_def)

lemma progress_sample:
  "progressFromStatus (Some ''Completed'') = 100"
  "progressFromStatus (Some ''completed'') = 100"
  "progressFromStatus (Some ''In progress'') = 0"
  "progressFromStatus (Some ''Not started'') = 0"
  "progressFromStatus (Some ''Skipped'') = 0"
  by (simp_all add: progressFromStatus_def string_eval)

lemma status_sample:
  "deriveOverallStatus (Some ''Completed'') (Some ''Completed'') = Done"
  "deriveOverallStatus (Some ''Completed'') (Some ''completed'') = Done"
  "deriveOverallStatus (Some ''In progress'') (Some ''Not started'') = InProgress"
  "deriveOverallStatus (Some ''Not started'') (Some ''In progress'') = InProgress"
  "deriveOverallStatus (Some ''In progress'') (Some ''In progress'') = InProgress"
  "deriveOverallStatus (Some ''Not started'') (Some ''Not started'') = NotStarted"
  "deriveOverallStatus (Some ''Not started'') (Some ''Skipped'') = Skipped"
  by (simp_all add: deriveOverallStatus_def string_eval)

lemma toISODate_sample:
  "toISODate sampleRuntime (Some ''2024-03-04'') = Some ''2024-03-04T00:00:00.000Z''"
  "toISODate sampleRuntime (Some ''2024-03-05'') = Some ''2024-03-05T00:00:00.000Z''"
  "toISODate sampleRuntime (Some ''2024-03-06'') = Some ''2024-03-06T00:00:00.000Z''"
  "toISODate sampleRuntime (Some ''2024-03-11'') = Some ''2024-03-11T00:00:00.000Z''"
  by (simp_all add: sampleRuntime_def string_eval date_eval Let_def)

lemma toISODate_None: "toISODate env None = None"
  by (simp add: toISODate_def)

lemma sampleItems_eval:
  "sampleItems =
     [\<lparr> date = Some ''2024-03-04T00:00:00.000Z'', status = Some ''Done'', hours = Val (Num 0),
        pythonTopic = Undefined, llmTopic = Undefined, pythonPct = Val (Num 100),
        llmPct = Val (Num 100), overallPct = Val (Num 100) \<rparr>,
      \<lparr> date = Some ''2024-03-05T00:00:00.000Z'', status = Some ''Done'', hours = Val (Num 0),
        pythonTopic = Undefined, llmTopic = Undefined, pythonPct = Val (Num 100),
        llmPct = Val (Num 100), overallPct = Val (Num 100) \<rparr>,
      \<lparr> date = Some ''2024-03-05T00:00:00.000Z'', status = Some ''In Progress'', hours = Val (Num 0),
        pythonTopic = Undefined, llmTopic = Undefined, pythonPct = Val (Num 0),
        llmPct = Val (Num 0), overallPct = Val (Num 0) \<rparr>,
      \<lparr> date = Some ''2024-03-06T00:00:00.000Z'', status = Some ''In Progress'', hours = Val (Num 0),
        pythonTopic = Undefined, llmTopic = Undefined, pythonPct = Val (Num 0),
        llmPct = Val (Num 0), overallPct = Val (Num 0) \<rparr>,
      \<lparr> date = Some ''2024-03-06T00:00:00.000Z'', status = Some ''In Progress'', hours = Val (Num 0),
        pythonTopic = Undefined, llmTopic = Undefined, pythonPct = Val (Num 0),
        llmPct = Val (Num 0), overallPct = Val (Num 0) \<rparr>,
      \<lparr> date = None, status = Some ''Not Started'', hours = Val (Num 0),
        pythonTopic = Undefined, llmTopic = Undefined, pythonPct = Val (Num 0),
        llmPct = Val (Num 0), overallPct = Val (Num 0) \<rparr>,
      \<lparr> date = Some ''2024-03-06T00:00:00.000Z'', status = Some ''Not Started'', hours = Val (Num 0),
        pythonTopic = Undefined, llmTopic = Undefined, pythonPct = Val (Num 0),
        llmPct = Val (Num 0), overallPct = Val (Num 0) \<rparr>,
      \<lparr> date = Some ''2024-03-11T00:00:00.000Z'', status = Some ''Skipped'', hours = Val (Num 0),
        pythonTopic = Undefined, llmTopic = Undefined, pythonPct = Val (Num 0),
        llmPct = Val (Num 0), overallPct = Val (Num 0) \<rparr>,
      \<lparr> date = Some ''2024-03-11T00:00:00.000Z'', status = Some ''Not Started'', hours = Val (Num 0),
        pythonTopic = Undefined, llmTopic = Undefined, pythonPct = Val (Num 0),
        llmPct = Val (Num 0), overallPct = Val (Num 0) \<rparr>,
      \<lparr> date = Some ''2024-03-11T00:00:00.000Z'', status = Some ''Not Started'', hours = Val (Num 0),
        pythonTopic = Undefined, llmTopic = Undefined, pythonPct = Val (Num 0),
        llmPct = Val (Num 0), overallPct = Val (Num 0) \<rparr>]"
  by (simp add: sampleItems_def samplePages_def mapPage_samplePage progress_sample status_sample
      toISODate_sample toISODate_None statusLabel_def)

lemma parseUTC_sample:
  "parseUTC sampleRuntime (Some ''2024-03-04T00:00:00.000Z'') = Some (Some 1709510400000)"
  "parseUTC sampleRuntime (Some ''2024-03-05T00:00:00.000Z'') = Some (Some 1709596800000)"
  "parseUTC sampleRuntime (Some ''2024-03-06T00:00:00.000Z'') = Some (Some 1709683200000)"
  "parseUTC sampleRuntime (Some ''2024-03-11T00:00:00.000Z'') = Some (Some 1710115200000)"
  by (simp_all add: parseUTC_def sampleRuntime_def string_eval date_eval Let_def)


lemma series_sample:
  "map total (series sampleRuntime sampleItems) = [1, 3, 6, 9] \<and>
   map bDone (series sampleRuntime sampleItems) = [1, 2, 2, 2]"
  by (simp add: sampleItems_eval parseUTC_sample dash_eval Let_def)

section \<open>Witnesses for the dashboard series\<close>

theorem series_monotone_witness:
  "0 < (1::nat) \<and> 1 < length (series sampleRuntime sampleItems) \<and>
   total (series sampleRuntime sampleItems ! (1 - 1)) \<le> total (series sampleRuntime sampleItems ! 1) \<and>
   bDone (series sampleRuntime sampleItems ! (1 - 1)) \<le> bDone (series sampleRuntime sampleItems ! 1)"
proof -
  have "length (map total (series sampleRuntime sampleItems)) = 4"
    by (simp only: series_sample) simp
  then have "0 < (1::nat) \<and> 1 < length (series sampleRuntime sampleItems)"
    by simp
  then show ?thesis
    using series_monotone [of sampleRuntime sampleItems] by blast
qed

theorem movingAverage_window_witness:
  "(0::nat) < length [\<lparr> week = Some 0, count = 2 \<rparr>, \<lparr> week = Some 604800000, count = 5 \<rparr>,
       \<lparr> week = Some 1814400000, count = 2 \<rparr>] \<and>
   2 < length [\<lparr> week = Some 0, count = 2 \<rparr>, \<lparr> week = Some 604800000, count = 5 \<rparr>,
       \<lparr> week = Some 1814400000, count = 2 \<rparr>] \<and>
   avg (movingAverage [\<lparr> week = Some 0, count = 2 \<rparr>, \<lparr> week = Some 604800000, count = 5 \<rparr>,
       \<lparr> week = Some 1814400000, count = 2 \<rparr>] ! 0) = 2 \<and>
   avg (movingAverage [\<lparr> week = Some 0, count = 2 \<rparr>, \<lparr> week = Some 604800000, count = 5 \<rparr>,
       \<lparr> week = Some 1814400000, count = 2 \<rparr>] ! 1) = 7 / 2 \<and>
   avg (movingAverage [\<lparr> week = Some 0, count = 2 \<rparr>, \<lparr> week = Some 604800000, count = 5 \<rparr>,
       \<lparr> week = Some 1814400000, count = 2 \<rparr>] ! 2) = 3"
  using movingAverage_window [of "[\<lparr> week = Some 0, count = 2 \<rparr>,
       \<lparr> week = Some 604800000, count = 5 \<rparr>, \<lparr> week = Some 1814400000, count = 2 \<rparr>]"]
  by (simp add: eval_nat_numeral)

section \<open>Properties of the KPIs and the topic averages\<close>

lemma set_insertBy: "set (insertBy cmp x xs) = insert x (set xs)"
  by (induction xs) auto

lemma set_sortBy: "set (sortBy cmp xs) = set xs"
  by (induction xs) (simp_all add: sortBy_def set_insertBy)

lemma keys_insertGroup: "fst ` set (insertGroup k x gs) = insert k (fst ` set gs)"
proof (induction k x gs rule: insertGroup.induct)
  case (1 k x)
  show ?case by simp
next
  case (2 k x k' vs gs)
  show ?case
  proof (cases "k = k'")
    case True
    then show ?thesis by simp
  next
    case False
    with 2 show ?thesis by auto
  qed
qed

lemma keys_foldl_insertGroup:
  "fst ` set (foldl (\<lambda>gs x. insertGroup (key x) x gs) gs0 xs) = fst ` set gs0 \<union> key ` set xs"
proof (induction xs arbitrary: gs0)
  case Nil
  show ?case by simp
next
  case (Cons x xs)
  have "fst ` set (foldl (\<lambda>gs x. insertGroup (key x) x gs) gs0 (x # xs)) =
        fst ` set (insertGroup (key x) x gs0) \<union> key ` set xs"
    using Cons.IH [of "insertGroup (key x) x gs0"] by simp
  then show ?case
    by (simp add: keys_insertGroup)
qed

lemma keys_rollups: "set (map fst (rollups reduce key xs)) = key ` set xs"
proof -
  have "map fst (rollups reduce key xs) = map fst (group key xs)"
    by (simp add: rollups_def comp_def case_prod_unfold)
  then have "set (map fst (rollups reduce key xs)) = fst ` set (group key xs)"
    by simp
  then show ?thesis
    by (simp add: group_def keys_foldl_insertGroup)
qed

lemma set_doneDayKeys:
  "set (doneDayKeys env doneRows) = dayKeyOf env ` set (filter hasDate doneRows)"
  by (simp only: doneDayKeys_def set_sortBy keys_rollups)











text \<open>
  Claim C9 says that missing or non-numeric values are left out of the per-topic average.
  \<open>avgPct\<close> leaves out \<open>undefined\<close>, \<open>NaN\<close> and the infinities, and gives 0 when nothing
  numeric remains, but \<open>Number(null)\<close> is 0, which \<open>Number.isFinite\<close> keeps: a \<open>null\<close>
  percentage is averaged as zero. The average of 100 and \<open>null\<close> is 50, not 100.
\<close>

theorem avgPct_null_counts_as_zero:
  "avgPct [Val (Num 100), Null] = 50 \<and> avgPct [Val (Num 100), Undefined] = 100 \<and>
   avgPct [Val (Num 100), Val NaN, Val PosInf] = 100 \<and> avgPct [Undefined, Val NaN] = 0"
  by (simp add: avgPct_def Number_of_def isFinite_def finiteVal_def mean_def orElse_def)

section \<open>Properties of the progress route\<close>

text \<open>
  Claim C10, as amended. The optional \<open>db\<close> parameter is validated as text only: every text,
  the empty one included, passes and is handed to the ingestion as the override, so a query
  string never yields the \<open>BAD_QUERY\<close> response. When the ingestion throws the response is
  \<open>{success: false, error: {code: "SERVER_ERROR", message}}\<close> with status 500; when it returns
  the response is \<open>{success: true, data}\<close> with status 200.
\<close>

theorem GET_response_shapes:
  "GET env pe notion db =
     (case getProgressData env pe notion db of
        None \<Rightarrow> None
      | Some (Inl err) \<Rightarrow>
          Some (Json (ErrorBody ''SERVER_ERROR'' ''Failed to fetch Notion data'') 500)
      | Some (Inr data) \<Rightarrow> Some (Json (SuccessBody data) 200)) \<and>
   GET env pe notion db \<noteq> Some (Json (ErrorBody ''BAD_QUERY'' ''Invalid query params'') 400) \<and>
   QuerySchema_safeParse (Val []) = Some (Some [])"
  by (cases db)
    (auto simp add: GET_def QuerySchema_safeParse_def split: option.splits sum.splits)

text \<open>
  The claim as stated fails at \<open>?db=\<close> (the empty text): the override is not rejected with
  \<open>BAD_QUERY\<close>; it reaches the data source, which does not know it.
\<close>

theorem GET_empty_db_counterexample:
  "GET sampleRuntime sampleEnvVars sampleNotion (Some []) =
     Some (Json (ErrorBody ''SERVER_ERROR'' ''Failed to fetch Notion data'') 500)"
proof -
  have "paginate (sampleNotion ''secret'' []) None [] = Some (Inl (Thrown ''Could not find database''))"
    by (subst paginate.simps) (simp add: sampleNotion_def)
  then show ?thesis
    by (simp add: GET_def QuerySchema_safeParse_def getProgressData_def parseEnv_def envIssues_def
        sampleEnvVars_def orElse_def)
qed

lemma GET_sample_ok:
  "GET sampleRuntime sampleEnvVars sampleNotion None =
     Some (Json (SuccessBody (map (mapPage sampleRuntime) samplePages)) 200)"
proof -
  have "paginate (sampleNotion ''secret'' ''db-1'') None [] = Some (Inr samplePages)"
    by (subst paginate.simps) (simp add: sampleNotion_def)
  then show ?thesis
    by (simp add: GET_def QuerySchema_safeParse_def getProgressData_def parseEnv_def envIssues_def
        sampleEnvVars_def orElse_def)
qed

section \<open>Properties of the streak\<close>

lemma insertBy_Some: "insertBy numCompare (Some x) (map Some ys) = map Some (insort x ys)"
  by (induction ys) (simp_all add: numCompare_def)

lemma sortBy_Some: "sortBy numCompare (map Some ts) = map Some (sort ts)"
proof (induction ts)
  case Nil
  show ?case by (simp add: sortBy_def)
next
  case (Cons t ts)
  have "sortBy numCompare (map Some (t # ts)) =
        insertBy numCompare (Some t) (sortBy numCompare (map Some ts))"
    by (simp add: sortBy_def)
  then show ?case
    by (simp add: Cons.IH insertBy_Some sort_key_def)
qed

lemma last_sort_Max:
  fixes ts :: "int list"
  assumes "ts \<noteq> []"
  shows "last (sort ts) = Max (set ts)"
proof -
  let ?s = "sort ts"
  have ne: "?s \<noteq> []"
    using assms by (metis length_sort length_0_conv)
  have "Max (set ?s) = last ?s"
  proof (rule Max_eqI)
    show "finite (set ?s)" by simp
    show "last ?s \<in> set ?s" using last_in_set [OF ne] by simp
    fix y
    assume "y \<in> set ?s"
    then obtain i where i: "i < length ?s" "?s ! i = y"
      by (metis in_set_conv_nth)
    have "sorted ?s" by simp
    then have "?s ! i \<le> ?s ! (length ?s - 1)"
      using i(1) by (intro sorted_nth_mono) simp_all
    then show "y \<le> last ?s"
      using i(2) ne by (simp add: last_conv_nth)
  qed
  then show ?thesis by simp
qed

lemma countBack_counts:
  assumes "None \<notin> set ks"
    and "\<forall>t. Some t \<in> set ks \<longrightarrow> \<bar>t\<bar> \<le> 8640000000000000"
    and "cur = Some c" and "c mod msPerDay = 0"
  shows "\<exists>m. countBack ks cur n = Some (n + m) \<and>
             (\<forall>i<m. Some (c - int i * msPerDay) \<in> set ks) \<and>
             Some (c - int m * msPerDay) \<notin> set ks"
  using assms
proof (induction ks cur n arbitrary: c rule: countBack.induct)
  case (1 doneSet streak)
  then show ?case by simp
next
  case (2 doneSet c0 streak)
  from "2.prems"(3) have c: "c0 = c" by simp
  have key: "utcDayKey (Some c) = Some c"
    using "2.prems"(4) div_mult_mod_eq [of c msPerDay]
    by (simp add: utcDayKey_def utcDayFloor_def Day_def)
  show ?case
  proof (cases "Some c \<in> set doneSet")
    case False
    then have "countBack doneSet (Some c0) streak = Some (streak + 0)"
      by (simp add: countBack.simps(2) [of doneSet c streak] c key)
    moreover have "Some (c - int 0 * msPerDay) \<notin> set doneSet"
      using False by simp
    ultimately show ?thesis
      by (intro exI [of _ 0]) simp
  next
    case True
    then have step: "countBack doneSet (Some c0) streak =
        countBack doneSet (utcDayOffset (Some c) (- 1)) (streak + 1)"
      by (simp add: countBack.simps(2) [of doneSet c streak] c key)
    show ?thesis
    proof (cases "utcDayOffset (Some c) (- 1)")
      case None
      then have out: "\<bar>c - msPerDay\<bar> > 8640000000000000"
        by (simp add: utcDayOffset_def TimeClip_def split: if_splits)
      have "countBack doneSet (Some c0) streak = Some (streak + 1)"
        using "2.prems"(1) by (simp add: step None countBack.simps(1))
      moreover have "\<forall>i<(1::nat). Some (c - int i * msPerDay) \<in> set doneSet"
        using True by simp
      moreover have "Some (c - int 1 * msPerDay) \<notin> set doneSet"
        using out "2.prems"(2) by auto
      ultimately show ?thesis
        by (intro exI [of _ 1]) simp
    next
      case (Some c')
      then have c': "c' = c - msPerDay"
        by (simp add: utcDayOffset_def TimeClip_def split: if_splits)
      have al: "c' mod msPerDay = 0"
        using "2.prems"(4) by (simp add: c' mod_diff_eq [symmetric] del: mod_diff_eq)
      have mem: "utcDayKey (Some c0) \<in> set doneSet"
        using True by (simp add: c key)
      obtain m where m: "countBack doneSet (utcDayOffset (Some c0) (- 1)) (streak + 1) =
            Some (streak + 1 + m)"
          "\<forall>i<m. Some (c' - int i * msPerDay) \<in> set doneSet"
          "Some (c' - int m * msPerDay) \<notin> set doneSet"
        using "2.IH" [OF mem "2.prems"(1) "2.prems"(2) _ al] Some c by auto
      have "countBack doneSet (Some c0) streak = Some (streak + Suc m)"
        using step m(1) c by simp
      moreover have "\<forall>i<Suc m. Some (c - int i * msPerDay) \<in> set doneSet"
      proof (intro allI impI)
        fix i
        assume i: "i < Suc m"
        show "Some (c - int i * msPerDay) \<in> set doneSet"
        proof (cases i)
          case 0
          then show ?thesis using True by simp
        next
          case (Suc j)
          then have "j < m" using i by simp
          then have "Some (c' - int j * msPerDay) \<in> set doneSet"
            using m(2) by simp
          then show ?thesis
            by (simp add: Suc c' algebra_simps)
        qed
      qed
      moreover have "Some (c - int (Suc m) * msPerDay) \<notin> set doneSet"
        using m(3) by (simp add: c' algebra_simps)
      ultimately show ?thesis
        by (intro exI [of _ "Suc m"]) simp
    qed
  qed
qed


lemma distinct_insertGroup:
  "distinct (map fst gs) \<Longrightarrow> distinct (map fst (insertGroup k x gs))"
proof (induction k x gs rule: insertGroup.induct)
  case (1 k x)
  show ?case by simp
next
  case (2 k x k' vs gs)
  show ?case
  proof (cases "k = k'")
    case True
    with "2.prems" show ?thesis by simp
  next
    case False
    with 2 keys_insertGroup [of k x gs] show ?thesis by auto
  qed
qed

lemma distinct_foldl_insertGroup:
  "distinct (map fst gs0) \<Longrightarrow>
   distinct (map fst (foldl (\<lambda>gs x. insertGroup (key x) x gs) gs0 xs))"
  by (induction xs arbitrary: gs0) (simp_all add: distinct_insertGroup)

lemma distinct_rollups: "distinct (map fst (rollups reduce key xs))"
proof -
  have "map fst (rollups reduce key xs) = map fst (group key xs)"
    by (simp add: rollups_def comp_def case_prod_unfold)
  then show ?thesis
    using distinct_foldl_insertGroup [of "[]" key xs] by (simp add: group_def)
qed

lemma distinct_insertBy: "distinct (insertBy cmp x xs) = (x \<notin> set xs \<and> distinct xs)"
  by (induction xs) (auto simp add: set_insertBy)

lemma distinct_sortBy: "distinct (sortBy cmp xs) = distinct xs"
proof (induction xs)
  case Nil
  show ?case by (simp add: sortBy_def)
next
  case (Cons x xs)
  have "sortBy cmp (x # xs) = insertBy cmp x (sortBy cmp xs)"
    by (simp add: sortBy_def)
  then show ?case
    by (simp add: distinct_insertBy set_sortBy Cons.IH)
qed

lemma distinct_doneDayKeys: "distinct (doneDayKeys env doneRows)"
  by (simp only: doneDayKeys_def distinct_sortBy distinct_rollups)

lemma streakFrom_spec:
  assumes valid: "\<forall>k \<in> set ks. dayKeyInRange k"
  shows "\<exists>n. streakFrom (sortBy numCompare ks) = Some n \<and> streak_spec (sortBy numCompare ks) n"
proof (cases "ks = []")
  case True
  then show ?thesis
    by (simp add: sortBy_def streakFrom_def streak_spec_def)
next
  case False
  define ts where "ts = map the ks"
  have some: "\<forall>k \<in> set ks. \<exists>t. k = Some t"
    using valid by (auto simp add: dayKeyInRange_def split: option.splits)
  have ks: "ks = map Some ts"
    unfolding ts_def using some by (induction ks) auto
  have tne: "ts \<noteq> []"
    using False ks by simp
  let ?S = "sortBy numCompare ks"
  have S: "?S = map Some (sort ts)"
    by (simp add: ks sortBy_Some)
  have Sne: "?S \<noteq> []"
    using tne by (simp add: S) (metis length_0_conv length_sort)
  define D where "D = Max (set ts)"
  have lastS: "last ?S = Some D"
    using tne Sne by (simp add: S last_map last_sort_Max D_def)
  have Din: "D \<in> set ts"
    unfolding D_def using tne by (intro Max_in) simp_all
  have Dmax: "\<forall>t \<in> set ts. t \<le> D"
    unfolding D_def by simp
  have setS: "set ?S = Some ` set ts"
    by (simp add: S)
  have "dayKeyInRange (Some D)"
    using valid Din ks by auto
  then have al: "D mod msPerDay = 0"
    by (simp add: dayKeyInRange_def)
  have noNone: "None \<notin> set ?S"
    by (auto simp add: setS)
  have range: "\<forall>t. Some t \<in> set ?S \<longrightarrow> \<bar>t\<bar> \<le> 8640000000000000"
  proof (intro allI impI)
    fix t
    assume "Some t \<in> set ?S"
    then have "Some t \<in> set ks"
      by (simp add: set_sortBy)
    with valid have "dayKeyInRange (Some t)" by blast
    then show "\<bar>t\<bar> \<le> 8640000000000000"
      by (simp add: dayKeyInRange_def)
  qed
  obtain m where m: "countBack ?S (Some D) 0 = Some (0 + m)"
      "\<forall>i<m. Some (D - int i * msPerDay) \<in> set ?S"
      "Some (D - int m * msPerDay) \<notin> set ?S"
    using countBack_counts [OF noNone range refl al, of 0] by blast
  have "streakFrom ?S = Some m"
    using Sne m(1) by (simp add: streakFrom_def lastS)
  moreover have "streak_spec ?S m"
  proof -
    have a: "Some D \<in> set ?S"
      using Din by (simp add: setS)
    have b: "\<forall>t. Some t \<in> set ?S \<longrightarrow> t \<le> D"
      using Dmax by (auto simp add: setS)
    have "\<exists>D. Some D \<in> set ?S \<and> (\<forall>t. Some t \<in> set ?S \<longrightarrow> t \<le> D) \<and>
            (\<forall>i<m. Some (D - int i * msPerDay) \<in> set ?S) \<and>
            Some (D - int m * msPerDay) \<notin> set ?S"
      by (rule exI [of _ D]) (intro conjI a b m(2) m(3))
    then show ?thesis
      using Sne by (simp only: streak_spec_def if_False)
  qed
  ultimately show ?thesis by blast
qed

lemma streak_spec_gap:
  assumes spec: "streak_spec keys n"
    and keys: "set keys = {Some D, Some (D - msPerDay), Some (D - 3 * msPerDay)}"
  shows "n = 2"
proof -
  have mem: "(Some x \<in> set keys) = (x = D \<or> x = D - 86400000 \<or> x = D - 259200000)" for x
    by (simp add: keys msPerDay_def)
  have ne: "keys \<noteq> []"
    using mem [of D] by auto
  have "\<exists>D'. Some D' \<in> set keys \<and> (\<forall>t. Some t \<in> set keys \<longrightarrow> t \<le> D') \<and>
            (\<forall>i<n. Some (D' - int i * msPerDay) \<in> set keys) \<and>
            Some (D' - int n * msPerDay) \<notin> set keys"
    using spec ne by (simp only: streak_spec_def if_False)
  then obtain D' where D': "Some D' \<in> set keys" "\<forall>t. Some t \<in> set keys \<longrightarrow> t \<le> D'"
      "\<forall>i<n. Some (D' - int i * msPerDay) \<in> set keys"
      "Some (D' - int n * msPerDay) \<notin> set keys"
    by blast
  have "Some D \<in> set keys"
    by (simp add: mem)
  then have "D \<le> D'"
    using D'(2) by blast
  moreover have "D' = D \<or> D' = D - 86400000 \<or> D' = D - 259200000"
    using D'(1) by (simp only: mem)
  ultimately have eq: "D' = D"
    by arith
  have out: "\<not> (D - int n * 86400000 = D \<or> D - int n * 86400000 = D - 86400000 \<or>
                 D - int n * 86400000 = D - 259200000)"
    using D'(4) by (simp add: mem eq msPerDay_def)
  have n0: "n \<noteq> 0"
  proof
    assume "n = 0"
    with out show False by simp
  qed
  have n1: "n \<noteq> 1"
  proof
    assume "n = 1"
    with out show False by simp
  qed
  have "\<not> 2 < n"
  proof
    assume "2 < n"
    then have "Some (D' - int 2 * msPerDay) \<in> set keys"
      using D'(3) by blast
    then have "D - int 2 * 86400000 = D \<or> D - int 2 * 86400000 = D - 86400000 \<or>
               D - int 2 * 86400000 = D - 259200000"
      by (simp only: mem eq msPerDay_def)
    then show False
      by simp
  qed
  with n0 n1 show ?thesis by arith
qed

lemma Day_floor_in_range:
  assumes "\<bar>t\<bar> \<le> 8640000000000000"
  shows "\<bar>Day t * msPerDay\<bar> \<le> 8640000000000000"
proof -
  have up: "Day t * msPerDay \<le> t"
    using Day_floor_bounds [of t] by simp
  have "(- 8640000000000000) div msPerDay \<le> t div msPerDay"
    using assms by (intro zdiv_mono1) (simp_all add: msPerDay_def)
  then have "- 100000000 \<le> Day t"
    by (simp add: Day_def msPerDay_def)
  then have "- 100000000 * msPerDay \<le> Day t * msPerDay"
    by (simp add: msPerDay_def)
  then show ?thesis
    using up assms by (simp add: msPerDay_def)
qed

lemma dayKeyOf_in_range:
  assumes "validTime (parsedDate env r)"
  shows "dayKeyInRange (dayKeyOf env r)"
proof -
  obtain t where t: "parsedDate env r = Some t" "\<bar>t\<bar> \<le> 8640000000000000"
    using assms by (auto simp add: validTime_def split: option.splits)
  then show ?thesis
    using Day_floor_in_range [OF t(2)]
    by (simp add: dayKeyOf_def utcDayKey_def utcDayFloor_def dayKeyInRange_def)
qed

text \<open>
  Claim C5. When the dates of the done records parse to valid instants, the KPI computation
  returns, the done day keys are distinct (several records of one day are one key) and are
  the UTC day keys of the dated done records, and the streak counts back one UTC day at a
  time from the latest key while the day is present, stopping at the first gap. It is 0 when
  there are no done records. For the keys \<open>D\<close>, \<open>D - 1\<close> and \<open>D - 3\<close> it is 2.
\<close>

theorem streak_counts_back:
  assumes "\<forall>r \<in> set rows. isDoneDay r \<and> hasDate r \<longrightarrow> validTime (parsedDate env r)"
  shows "\<exists>k. kpis env rows = Some k \<and>
           distinct (doneDayKeys env (filter isDoneDay rows)) \<and>
           set (doneDayKeys env (filter isDoneDay rows)) =
             dayKeyOf env ` {r \<in> set rows. isDoneDay r \<and> hasDate r} \<and>
           streak_spec (doneDayKeys env (filter isDoneDay rows)) (kStreak k) \<and>
           (filter isDoneDay rows = [] \<longrightarrow> kStreak k = 0) \<and>
           (\<forall>D. set (doneDayKeys env (filter isDoneDay rows)) =
                  {Some D, Some (D - msPerDay), Some (D - 3 * msPerDay)} \<longrightarrow>
                kStreak k = 2)"
proof -
  let ?ks0 = "map fst (rollups (\<lambda>v. True) (dayKeyOf env) (filter hasDate (filter isDoneDay rows)))"
  let ?K = "doneDayKeys env (filter isDoneDay rows)"
  have K: "?K = sortBy numCompare ?ks0"
    by (simp add: doneDayKeys_def)
  have setK: "set ?K = dayKeyOf env ` {r \<in> set rows. isDoneDay r \<and> hasDate r}"
    by (auto simp add: set_doneDayKeys)
  have s0: "set ?ks0 = dayKeyOf env ` set (filter hasDate (filter isDoneDay rows))"
    by (rule keys_rollups)
  have "\<forall>k \<in> set ?ks0. dayKeyInRange k"
  proof
    fix k
    assume "k \<in> set ?ks0"
    then obtain r where r: "r \<in> set rows" "isDoneDay r" "hasDate r" "k = dayKeyOf env r"
      unfolding s0 by auto
    then have "validTime (parsedDate env r)"
      using assms by blast
    then show "dayKeyInRange k"
      using r(4) dayKeyOf_in_range by simp
  qed
  then obtain n where n: "streakFrom ?K = Some n" "streak_spec ?K n"
    unfolding K using streakFrom_spec by blast
  define k where "k = \<lparr> kTotal = int (length rows), kDone = int (length (filter isDoneDay rows)),
      kOpen = int (length rows) - int (length (filter isDoneDay rows)),
      kCompletion = (if int (length rows) \<noteq> 0
         then Math_round (of_int (int (length (filter isDoneDay rows))) / of_int (int (length rows)) * 100)
         else 0),
      kStreak = n \<rparr>"
  have kp: "kpis env rows = Some k"
    by (simp add: kpis_def n(1) k_def Let_def)
  have ks: "kStreak k = n"
    by (simp add: k_def)
  have empty: "filter isDoneDay rows = [] \<longrightarrow> kStreak k = 0"
  proof
    assume "filter isDoneDay rows = []"
    then have "?K = []"
      by (simp add: doneDayKeys_def rollups_def group_def sortBy_def)
    then show "kStreak k = 0"
      using n(2) by (simp add: ks streak_spec_def)
  qed
  have sp: "streak_spec ?K (kStreak k)"
    using n(2) by (simp only: ks)
  have gap: "\<forall>D. set ?K = {Some D, Some (D - msPerDay), Some (D - 3 * msPerDay)} \<longrightarrow>
                kStreak k = 2"
    using streak_spec_gap [OF sp] by blast
  have di: "distinct ?K"
    by (rule distinct_doneDayKeys)
  show ?thesis
    by (rule exI [of _ k]) (intro conjI kp di setK sp empty gap)
qed


lemma parseUTC_gap:
  "parseUTC sampleRuntime (Some ''2024-03-05'') = Some (Some 1709596800000)"
  "parseUTC sampleRuntime (Some ''2024-03-04'') = Some (Some 1709510400000)"
  "parseUTC sampleRuntime (Some ''2024-03-02'') = Some (Some 1709337600000)"
  by (simp_all add: parseUTC_def sampleRuntime_def string_eval date_eval Let_def)

lemma doneDayKeys_gap:
  "doneDayKeys sampleRuntime (filter isDoneDay gapItems) =
     [Some 1709337600000, Some 1709510400000, Some 1709596800000]"
  by (simp add: gapItems_def parseUTC_gap dash_eval Let_def)

theorem streak_counts_back_witness:
  "map_option kStreak (kpis sampleRuntime gapItems) = Some 2 \<and>
   doneDayKeys sampleRuntime (filter isDoneDay gapItems) =
     [Some (1709596800000 - 3 * msPerDay), Some (1709596800000 - msPerDay), Some 1709596800000]"
proof -
  have h: "\<forall>r \<in> set gapItems. isDoneDay r \<and> hasDate r \<longrightarrow> validTime (parsedDate sampleRuntime r)"
    by (simp add: gapItems_def parseUTC_gap parsedDate_def validTime_def)
  have s: "set (doneDayKeys sampleRuntime (filter isDoneDay gapItems)) =
           {Some 1709596800000, Some (1709596800000 - msPerDay),
            Some (1709596800000 - 3 * msPerDay)}"
    by (auto simp add: doneDayKeys_gap msPerDay_def)
  obtain k where k: "kpis sampleRuntime gapItems = Some k"
      "\<forall>D. set (doneDayKeys sampleRuntime (filter isDoneDay gapItems)) =
            {Some D, Some (D - msPerDay), Some (D - 3 * msPerDay)} \<longrightarrow> kStreak k = 2"
    using streak_counts_back [OF h] by blast
  have "kStreak k = 2"
    using k(2) s by blast
  then show ?thesis
    by (simp add: k(1) doneDayKeys_gap msPerDay_def)
qed

end
